theory Spec2Isabelle
  imports Complex_Main
begin

section \<open>Sales forecasting dashboard: the numeric pipeline of App.js\<close>

text \<open>
  The four functions of \<^verbatim>\<open>src/src/App.js\<close> (\<^verbatim>\<open>generateSyntheticSalesData\<close>,
  \<^verbatim>\<open>simulateProphetForecast\<close>, \<^verbatim>\<open>evaluateModel\<close>,
  \<^verbatim>\<open>calculateInventoryRecommendations\<close>) and the effect that chains them, as HOL
  functions. Conventions of the embedding:
  \<^item> a JavaScript number is a \<open>real\<close>: rounding error, NaN and the infinities of IEEE
    doubles are not modelled, \<^verbatim>\<open>Math.sin\<close> is \<open>sin\<close>, \<^verbatim>\<open>Math.PI\<close> is \<open>pi\<close>;
  \<^item> a \<^verbatim>\<open>Date\<close> is its time value, an \<open>int\<close> of milliseconds since 1970-01-01T00:00Z,
    or \<open>None\<close> for an Invalid Date; the day and year arithmetic follows ECMAScript's
    definitions (\<open>Day\<close>, \<open>DayFromYear\<close>, \<open>YearFromTime\<close>, \<open>MakeDay\<close>, \<open>TimeClip\<close>,
    \<open>LocalTime\<close>, \<open>UTC\<close>);
  \<^item> the host's time zone is an argument \<open>z\<close> of every function that reads or sets local
    time (\<^verbatim>\<open>getDate\<close>, \<^verbatim>\<open>setDate\<close>, \<^verbatim>\<open>getDay\<close>, \<^verbatim>\<open>getFullYear\<close>, \<^verbatim>\<open>new Date(y, m, d)\<close>):
    ECMAScript's \<open>LocalTime\<close> and \<open>UTC\<close> conversions, with or without daylight saving;
  \<^item> a date key \<^verbatim>\<open>'YYYY-MM-DD'\<close> is the triple of its three numbers; keys of years
    before 0 are not accepted by \<open>Date_parse\<close>;
  \<^item> \<^verbatim>\<open>Math.random()\<close> is an explicit argument \<open>rand\<close>: \<open>rand i\<close> is the value of the
    \<open>i\<close>-th call;
  \<^item> a thrown exception is \<open>Inl\<close> of an \<open>error\<close>, a normal return is \<open>Inr\<close>.
\<close>

subsection \<open>Numbers\<close>

text \<open>\<^verbatim>\<open>Math.round\<close>: the nearest integer, a tie going up.\<close>

definition Math_round :: "real \<Rightarrow> real" where
  "Math_round x = of_int \<lfloor>x + 1 / 2\<rfloor>"

subsection \<open>Dates\<close>

type_synonym time_value = int

record iso_date =
  yyyy :: int
  mm :: int
  dd :: int

definition msPerDay :: int where
  "msPerDay = 1000 * 60 * 60 * 24"

definition maxTime :: int where
  "maxTime = 8640000000000000"

definition TimeClip :: "int \<Rightarrow> time_value option" where
  "TimeClip t = (if \<bar>t\<bar> \<le> maxTime then Some t else None)"

definition Day :: "time_value \<Rightarrow> int" where
  "Day t = t div msPerDay"

definition TimeWithinDay :: "time_value \<Rightarrow> int" where
  "TimeWithinDay t = t mod msPerDay"

definition DayFromYear :: "int \<Rightarrow> int" where
  "DayFromYear yr =
     365 * (yr - 1970) + (yr - 1969) div 4 - (yr - 1901) div 100 + (yr - 1601) div 400"

definition InLeapYear :: "int \<Rightarrow> int" where
  "InLeapYear yr =
     (if yr mod 4 \<noteq> 0 then 0 else if yr mod 100 \<noteq> 0 then 1
      else if yr mod 400 \<noteq> 0 then 0 else 1)"

lemma div_plus1:
  fixes a n :: int
  assumes "0 < n"
  shows "(a + 1) div n = a div n + (if (a + 1) mod n = 0 then 1 else 0)"
proof (cases "a mod n + 1 = n")
  case True
  have "a = n * (a div n) + a mod n" by simp
  then have "a + 1 = n * (a div n) + n" using True by linarith
  then have "a + 1 = n * (a div n + 1) + 0" by (simp add: algebra_simps)
  then have "(a + 1) div n = a div n + 1" and "(a + 1) mod n = 0"
    using assms int_div_pos_eq [of "a + 1" n "a div n + 1" 0]
      int_mod_pos_eq [of "a + 1" n "a div n + 1" 0]
    by simp_all
  then show ?thesis by simp
next
  case False
  have r: "0 \<le> a mod n" "a mod n < n" using assms by simp_all
  have "a + 1 = n * (a div n) + (a mod n + 1)"
    using mult_div_mod_eq [of n a] by simp
  moreover have "0 \<le> a mod n + 1" "a mod n + 1 < n" using r False by simp_all
  ultimately have "(a + 1) div n = a div n" and "(a + 1) mod n = a mod n + 1"
    using int_div_pos_eq [of "a + 1" n "a div n" "a mod n + 1"]
      int_mod_pos_eq [of "a + 1" n "a div n" "a mod n + 1"]
    by simp_all
  then show ?thesis using r by simp
qed

lemma mod_shift_4: "((k::int) - 1968) mod 4 = k mod 4"
proof -
  have "k - 1968 = k + 4 * (- 492)" by simp
  then show ?thesis by (simp only: mod_mult_self2)
qed

lemma mod_shift_100: "((k::int) - 1900) mod 100 = k mod 100"
proof -
  have "k - 1900 = k + 100 * (- 19)" by simp
  then show ?thesis by (simp only: mod_mult_self2)
qed

lemma mod_shift_400: "((k::int) - 1600) mod 400 = k mod 400"
proof -
  have "k - 1600 = k + 400 * (- 4)" by simp
  then show ?thesis by (simp only: mod_mult_self2)
qed

lemma mod_400_100: "(k::int) mod 400 = 0 \<Longrightarrow> k mod 100 = 0"
proof -
  assume "k mod 400 = 0"
  then have "400 dvd k" by (simp add: mod_eq_0_iff_dvd)
  moreover have "(100::int) dvd 400" by simp
  ultimately have "100 dvd k" by (rule dvd_trans [rotated])
  then show ?thesis by (simp add: mod_eq_0_iff_dvd)
qed

lemma mod_100_4: "(k::int) mod 100 = 0 \<Longrightarrow> k mod 4 = 0"
proof -
  assume "k mod 100 = 0"
  then have "100 dvd k" by (simp add: mod_eq_0_iff_dvd)
  moreover have "(4::int) dvd 100" by simp
  ultimately have "4 dvd k" by (rule dvd_trans [rotated])
  then show ?thesis by (simp add: mod_eq_0_iff_dvd)
qed

lemma DayFromYear_step: "DayFromYear (k + 1) = DayFromYear k + 365 + InLeapYear k"
proof -
  have a: "(k + 1 - 1969) div 4 = (k - 1969) div 4 + (if k mod 4 = 0 then 1 else 0)"
    using div_plus1 [of 4 "k - 1969"] mod_shift_4 [of k] by (simp add: algebra_simps)
  have b: "(k + 1 - 1901) div 100 = (k - 1901) div 100 + (if k mod 100 = 0 then 1 else 0)"
    using div_plus1 [of 100 "k - 1901"] mod_shift_100 [of k] by (simp add: algebra_simps)
  have c: "(k + 1 - 1601) div 400 = (k - 1601) div 400 + (if k mod 400 = 0 then 1 else 0)"
    using div_plus1 [of 400 "k - 1601"] mod_shift_400 [of k] by (simp add: algebra_simps)
  have d: "k mod 400 = 0 \<Longrightarrow> k mod 100 = 0"
    by (rule mod_400_100)
  have e: "k mod 100 = 0 \<Longrightarrow> k mod 4 = 0"
    by (rule mod_100_4)
  show ?thesis
    unfolding DayFromYear_def InLeapYear_def a b c using d e by auto
qed

text \<open>
  \<open>YearFromTime t\<close> is the largest year \<open>yr\<close> with \<open>DayFromYear yr \<le> Day t\<close>. It is
  computed by an upward search from an estimate that is never too large.
\<close>

function year_search :: "int \<Rightarrow> int \<Rightarrow> int" where
  "year_search yr d = (if DayFromYear (yr + 1) \<le> d then year_search (yr + 1) d else yr)"
  by pat_completeness auto
termination
proof (relation "measure (\<lambda>(yr, d). nat (d + 1 - DayFromYear (yr + 1)))")
  show "wf (measure (\<lambda>(yr, d). nat (d + 1 - DayFromYear (yr + 1))))" by simp
next
  fix yr d :: int
  assume "DayFromYear (yr + 1) \<le> d"
  moreover have "DayFromYear (yr + 1) + 365 \<le> DayFromYear (yr + 1 + 1)"
    using DayFromYear_step [of "yr + 1"] by (simp add: InLeapYear_def)
  ultimately show "((yr + 1, d), (yr, d)) \<in> measure (\<lambda>(yr, d). nat (d + 1 - DayFromYear (yr + 1)))"
    by simp
qed

declare year_search.simps [simp del]

definition YearFromTime :: "time_value \<Rightarrow> int" where
  "YearFromTime t =
     (let d = Day t in year_search (1970 + (if 0 \<le> d then d div 366 else d div 365)) d)"

definition DayWithinYear :: "time_value \<Rightarrow> int" where
  "DayWithinYear t = Day t - DayFromYear (YearFromTime t)"

text \<open>
  \<open>MonthStart l m\<close>: the day within the year on which month \<open>m\<close> (0 = January) begins,
  \<open>l\<close> being 1 in a leap year and 0 otherwise.
\<close>

definition MonthStart :: "int \<Rightarrow> int \<Rightarrow> int" where
  "MonthStart l m =
     (if m = 0 then 0 else if m = 1 then 31 else if m = 2 then 59 + l
      else if m = 3 then 90 + l else if m = 4 then 120 + l else if m = 5 then 151 + l
      else if m = 6 then 181 + l else if m = 7 then 212 + l else if m = 8 then 243 + l
      else if m = 9 then 273 + l else if m = 10 then 304 + l else if m = 11 then 334 + l
      else 365 + l)"

definition MonthFromTime :: "time_value \<Rightarrow> int" where
  "MonthFromTime t =
     (let d = DayWithinYear t; l = InLeapYear (YearFromTime t) in
      if d < 31 then 0 else if d < 59 + l then 1 else if d < 90 + l then 2
      else if d < 120 + l then 3 else if d < 151 + l then 4 else if d < 181 + l then 5
      else if d < 212 + l then 6 else if d < 243 + l then 7 else if d < 273 + l then 8
      else if d < 304 + l then 9 else if d < 334 + l then 10 else 11)"

definition DateFromTime :: "time_value \<Rightarrow> int" where
  "DateFromTime t =
     DayWithinYear t - MonthStart (InLeapYear (YearFromTime t)) (MonthFromTime t) + 1"

definition WeekDay :: "time_value \<Rightarrow> int" where
  "WeekDay t = (Day t + 4) mod 7"

definition MakeDay :: "int \<Rightarrow> int \<Rightarrow> int \<Rightarrow> int" where
  "MakeDay yr m dt =
     (let ym = yr + m div 12; mn = m mod 12 in
      DayFromYear ym + MonthStart (InLeapYear ym) mn + dt - 1)"

definition MakeDate :: "int \<Rightarrow> int \<Rightarrow> int" where
  "MakeDate day time = day * msPerDay + time"

definition DaysInMonth :: "int \<Rightarrow> int \<Rightarrow> int" where
  "DaysInMonth yr m = MonthStart (InLeapYear yr) (m + 1) - MonthStart (InLeapYear yr) m"

text \<open>
  \<^verbatim>\<open>new Date('YYYY-MM-DD')\<close>: midnight UTC of that day, or an Invalid Date when the
  key is not a calendar date, as ECMAScript specifies (an engine that rolls an overlong
  day over into the next month is not modelled).
\<close>

definition Date_parse :: "iso_date \<Rightarrow> time_value option" where
  "Date_parse s =
     (if 0 \<le> yyyy s \<and> 1 \<le> mm s \<and> mm s \<le> 12 \<and> 1 \<le> dd s \<and> dd s \<le> DaysInMonth (yyyy s) (mm s - 1)
      then TimeClip (MakeDate (MakeDay (yyyy s) (mm s - 1) (dd s)) 0)
      else None)"

text \<open>\<^verbatim>\<open>date.toISOString().split('T')[0]\<close> of a valid date: its UTC calendar day.\<close>

definition toISODate :: "time_value \<Rightarrow> iso_date" where
  "toISODate t = \<lparr>yyyy = YearFromTime t, mm = MonthFromTime t + 1, dd = DateFromTime t\<rparr>"

subsection \<open>The host's time zone\<close>

text \<open>
  \<^verbatim>\<open>getDate\<close>, \<^verbatim>\<open>setDate\<close>, \<^verbatim>\<open>getDay\<close>, \<^verbatim>\<open>getFullYear\<close> and \<^verbatim>\<open>new Date(year, month, day)\<close>
  work in the local time of the host the script runs on, while \<^verbatim>\<open>new Date('YYYY-MM-DD')\<close>
  and \<^verbatim>\<open>toISOString\<close> work in UTC. The host is an argument of the model: a standard
  offset from UTC in milliseconds, and the periods of daylight saving, which adds one
  hour (as in every zone that observes it today but Lord Howe Island). \<open>dst_at_utc\<close>
  says whether daylight saving is in effect at a UTC time value, \<open>dst_at_local\<close> whether
  it is for a local time value; ECMAScript reads a local time that a transition skips or
  repeats with the offset before the transition.
\<close>

record host =
  standard_offset :: int
  dst_at_utc :: "time_value \<Rightarrow> bool"
  dst_at_local :: "int \<Rightarrow> bool"

definition msPerHour :: int where
  "msPerHour = 1000 * 60 * 60"

definition LocalTZA :: "host \<Rightarrow> int \<Rightarrow> bool \<Rightarrow> int" where
  "LocalTZA z t isUTC =
     standard_offset z
       + (if (if isUTC then dst_at_utc z t else dst_at_local z t) then msPerHour else 0)"

definition LocalTime :: "host \<Rightarrow> time_value \<Rightarrow> int" where
  "LocalTime z t = t + LocalTZA z t True"

definition UTC :: "host \<Rightarrow> int \<Rightarrow> time_value" where
  "UTC z t = t - LocalTZA z t False"

text \<open>A host without daylight saving, \<open>off\<close> milliseconds east of UTC; \<open>plain_zone 0\<close> is UTC.\<close>

definition plain_zone :: "int \<Rightarrow> host" where
  "plain_zone off = \<lparr>standard_offset = off, dst_at_utc = (\<lambda>t. False), dst_at_local = (\<lambda>t. False)\<rparr>"

text \<open>
  A host in the zone America/New_York, with the transitions of the year 2024: five hours
  west of UTC, and daylight saving from 2024-03-10 07:00 UTC (02:00 local, read as 03:00)
  to 2024-11-03 06:00 UTC (02:00 local daylight time, read as 01:00). The runs below that
  step a date or read a local date on it stay within December 2023 and the year 2024,
  where these are the zone's only transitions.
\<close>

definition new_york_2024 :: host where
  "new_york_2024 =
     \<lparr>standard_offset = - 18000000,
      dst_at_utc = (\<lambda>t. 1710054000000 \<le> t \<and> t < 1730613600000),
      dst_at_local = (\<lambda>t. 1710039600000 \<le> t \<and> t < 1730599200000)\<rparr>"

text \<open>
  \<^verbatim>\<open>new Date(year, 0, 0)\<close>: local midnight of the day before 1 January of \<open>year\<close>; the
  constructor reads a year from 0 to 99 as 1900 + year. The result is not clipped here:
  for a valid date of a year from 0 on, and a standard offset of at most a day, it is in
  range (lemma \<open>Date_ymd_in_range\<close>).
\<close>

definition Date_ymd :: "host \<Rightarrow> int \<Rightarrow> int \<Rightarrow> int \<Rightarrow> time_value" where
  "Date_ymd z year month date =
     (let yr = (if 0 \<le> year \<and> year \<le> 99 then 1900 + year else year) in
      UTC z (MakeDate (MakeDay yr month date) 0))"

definition getFullYear :: "host \<Rightarrow> time_value \<Rightarrow> int" where
  "getFullYear z t = YearFromTime (LocalTime z t)"

definition getDate :: "host \<Rightarrow> time_value \<Rightarrow> int" where
  "getDate z t = DateFromTime (LocalTime z t)"

definition getDay :: "host \<Rightarrow> time_value \<Rightarrow> int" where
  "getDay z t = WeekDay (LocalTime z t)"

text \<open>
  \<^verbatim>\<open>d.setDate(dt)\<close>, on a date that may be invalid: the day of the month is replaced in
  local time, and the result is converted back to UTC.
\<close>

definition setDate :: "host \<Rightarrow> time_value option \<Rightarrow> int \<Rightarrow> time_value option" where
  "setDate z d dt =
     (case d of None \<Rightarrow> None
      | Some t \<Rightarrow>
          (let lt = LocalTime z t;
               newDate = MakeDate (MakeDay (YearFromTime lt) (MonthFromTime lt) dt) (TimeWithinDay lt)
           in TimeClip (UTC z newDate)))"

text \<open>\<^verbatim>\<open>currentDate.setDate(currentDate.getDate() + 1)\<close>.\<close>

definition next_day :: "host \<Rightarrow> time_value option \<Rightarrow> time_value option" where
  "next_day z d = (case d of None \<Rightarrow> None | Some t \<Rightarrow> setDate z d (getDate z t + 1))"

lemma MakeDay_self:
  "MakeDay (YearFromTime t) (MonthFromTime t) (DateFromTime t + k) = Day t + k"
proof -
  have m: "0 \<le> MonthFromTime t \<and> MonthFromTime t < 12"
    by (simp add: MonthFromTime_def Let_def)
  then have "MonthFromTime t div 12 = 0" and "MonthFromTime t mod 12 = MonthFromTime t"
    by simp_all
  then show ?thesis
    by (simp add: MakeDay_def DateFromTime_def DayWithinYear_def)
qed

lemma next_day_Some: "next_day z (Some t) = TimeClip (UTC z (LocalTime z t + msPerDay))"
proof -
  let ?lt = "LocalTime z t"
  have "Day ?lt * msPerDay + TimeWithinDay ?lt = ?lt"
    by (simp add: Day_def TimeWithinDay_def)
  then have "(Day ?lt + 1) * msPerDay + TimeWithinDay ?lt = ?lt + msPerDay"
    by (simp add: algebra_simps)
  then show ?thesis
    by (simp add: next_day_def setDate_def getDate_def MakeDay_self MakeDate_def Let_def)
qed

lemma LocalTZA_range:
  "standard_offset z \<le> LocalTZA z t b \<and> LocalTZA z t b \<le> standard_offset z + msPerHour"
  by (simp add: LocalTZA_def msPerHour_def)

lemma next_day_later:
  assumes "next_day z (Some t) = Some u"
  shows "t + msPerDay - msPerHour \<le> u" and "u \<le> t + msPerDay + msPerHour"
proof -
  from assms have u: "u = UTC z (LocalTime z t + msPerDay)"
    by (simp add: next_day_Some TimeClip_def split: if_splits)
  show "t + msPerDay - msPerHour \<le> u"
    using LocalTZA_range [of z t True] LocalTZA_range [of z "LocalTime z t + msPerDay" False]
    unfolding u UTC_def LocalTime_def by linarith
  show "u \<le> t + msPerDay + msPerHour"
    using LocalTZA_range [of z t True] LocalTZA_range [of z "LocalTime z t + msPerDay" False]
    unfolding u UTC_def LocalTime_def by linarith
qed

lemma next_day_increases: "next_day z (Some t) = Some u \<Longrightarrow> t < u"
  using next_day_later(1) [of z t u] by (simp add: msPerDay_def msPerHour_def)

lemma LocalTZA_plain [simp]: "LocalTZA (plain_zone off) t b = off"
  by (simp add: LocalTZA_def plain_zone_def)

lemma next_day_plain: "next_day (plain_zone off) (Some t) = TimeClip (t + msPerDay)"
  by (simp add: next_day_Some UTC_def LocalTime_def)

subsection \<open>Records\<close>

text \<open>
  The objects of the source, by their fields: \<^verbatim>\<open>{ds, y}\<close> of the historical series,
  \<^verbatim>\<open>{ds, yhat, yhat_lower, yhat_upper, trend, yearly_seasonality, weekly_seasonality}\<close>
  of a forecast, \<^verbatim>\<open>{ds, yhat, recommended_inventory}\<close> of a recommendation. Every one
  extends \<^verbatim>\<open>{ds}\<close>, and the last two extend \<^verbatim>\<open>{ds, yhat}\<close>, so \<open>ds\<close> and \<open>yhat\<close>
  read any record that has the field, as property access does.
\<close>

record dated =
  ds :: iso_date

record sales_record = dated +
  y :: real

record prediction = dated +
  yhat :: real

record forecast_record = prediction +
  yhat_lower :: real
  yhat_upper :: real
  trend :: real
  yearly_seasonality :: real
  weekly_seasonality :: real

record inventory_record = prediction +
  recommended_inventory :: real

text \<open>The object \<^verbatim>\<open>{mae, rmse}\<close> that \<^verbatim>\<open>evaluateModel\<close> returns.\<close>

record metrics =
  mae :: real
  rmse :: real

text \<open>
  The component's state after the effect has run: the cells \<^verbatim>\<open>mae\<close> and \<^verbatim>\<open>rmse\<close>
  and the three arrays.
\<close>

record app_state = metrics +
  salesData :: "sales_record list"
  forecastData :: "forecast_record list"
  inventoryRecommendations :: "inventory_record list"

subsection \<open>Failures\<close>

text \<open>
  \<open>TypeError\<close> and \<open>RangeError\<close> are the exceptions the source can raise: reading
  \<^verbatim>\<open>.ds\<close> of \<^verbatim>\<open>undefined\<close>, and \<^verbatim>\<open>toISOString\<close> of an Invalid Date. The other three are
  the names of the specification's error taxonomy; no path of the source raises them.
\<close>

datatype error =
  TypeError | RangeError | InvalidRangeError | EmptyHistoryError | InvalidFactorError

subsection \<open>Constants of the component\<close>

definition START_DATE :: iso_date where
  "START_DATE = \<lparr>yyyy = 2022, mm = 1, dd = 1\<rparr>"

definition END_DATE :: iso_date where
  "END_DATE = \<lparr>yyyy = 2024, mm = 12, dd = 31\<rparr>"

definition FORECAST_PERIOD_DAYS :: int where
  "FORECAST_PERIOD_DAYS = 90"

definition SAFETY_STOCK_FACTOR :: real where
  "SAFETY_STOCK_FACTOR = 0.20"

text \<open>
  A random source for concrete runs: every call of \<^verbatim>\<open>Math.random()\<close> returns 0.5, so
  the noise term is 0.
\<close>

definition mid_draws :: "nat \<Rightarrow> real" where
  "mid_draws i = 1 / 2"

subsection \<open>Seasonal components\<close>

text \<open>
  Both \<^verbatim>\<open>generateSyntheticSalesData\<close> and \<^verbatim>\<open>simulateProphetForecast\<close> compute, for a
  date, \<^verbatim>\<open>Math.floor((date - new Date(date.getFullYear(), 0, 0)) / (1000*60*60*24))\<close>,
  \<^verbatim>\<open>10 * Math.sin(dayOfYear * (2 * Math.PI / 365))\<close> and
  \<^verbatim>\<open>(dayOfWeek === 0 || dayOfWeek === 6) ? 15 : 0\<close>.
\<close>

definition dayOfYear :: "host \<Rightarrow> time_value \<Rightarrow> int" where
  "dayOfYear z date =
     \<lfloor>real_of_int (date - Date_ymd z (getFullYear z date) 0 0) / real_of_int msPerDay\<rfloor>"

definition yearlySeasonality :: "host \<Rightarrow> time_value \<Rightarrow> real" where
  "yearlySeasonality z date = 10 * sin (real_of_int (dayOfYear z date) * (2 * pi / 365))"

definition weeklySeasonality :: "host \<Rightarrow> time_value \<Rightarrow> real" where
  "weeklySeasonality z date =
     (let dayOfWeek = getDay z date in if dayOfWeek = 0 \<or> dayOfWeek = 6 then 15 else 0)"

subsection \<open>1. Data generation\<close>

text \<open>
  \<^verbatim>\<open>while (currentDate <= endDate) { dates.push(new Date(currentDate));
  currentDate.setDate(currentDate.getDate() + 1); }\<close>. A comparison with an Invalid
  Date is false, so the loop body never runs then. The loop ends on every host: a step
  moves the date forward by 23 to 25 hours.
\<close>

function dates_loop ::
  "host \<Rightarrow> time_value option \<Rightarrow> time_value option \<Rightarrow> time_value list" where
  "dates_loop z currentDate endDate =
     (case (currentDate, endDate) of
        (Some c, Some e) \<Rightarrow> if c \<le> e then c # dates_loop z (next_day z (Some c)) endDate else []
      | _ \<Rightarrow> [])"
  by pat_completeness auto
termination
  by (relation "measure (\<lambda>(z, currentDate, endDate).
        case (currentDate, endDate) of (Some c, Some e) \<Rightarrow> nat (e + 1 - c) | _ \<Rightarrow> 0)")
    (auto dest: next_day_increases split: option.splits)

declare dates_loop.simps [simp del]

definition generateSyntheticSalesData ::
  "host \<Rightarrow> iso_date \<Rightarrow> iso_date \<Rightarrow> (nat \<Rightarrow> real) \<Rightarrow> error + sales_record list" where
  "generateSyntheticSalesData z startDateStr endDateStr rand =
     (let dates = dates_loop z (Date_parse startDateStr) (Date_parse endDateStr);
          numDays = length dates;
          baseSales = 100;
          trend = map (\<lambda>i. (real i / real numDays) * 50) [0..<numDays];
          yearlySeasonality = map (yearlySeasonality z) dates;
          weeklySeasonality = map (weeklySeasonality z) dates;
          noise = map (\<lambda>i. (rand i - 0.5) * 10) [0..<numDays];
          sales = map (\<lambda>i. max 0 (Math_round
                    (baseSales + trend ! i + yearlySeasonality ! i + weeklySeasonality ! i + noise ! i)))
                    [0..<numDays]
      in Inr (map (\<lambda>(date, index). \<lparr>ds = toISODate date, y = sales ! index\<rparr>)
               (zip dates [0..<numDays])))"

subsection \<open>2. Forecast simulation\<close>

text \<open>
  \<^verbatim>\<open>for (let i = 0; i < forecastPeriods; i++) { futureDates.push(new Date(currentDate));
  currentDate.setDate(currentDate.getDate() + 1); }\<close>, by the number of iterations left.
\<close>

primrec futureDates_loop ::
  "host \<Rightarrow> nat \<Rightarrow> time_value option \<Rightarrow> time_value option list" where
  "futureDates_loop z 0 currentDate = []"
| "futureDates_loop z (Suc n) currentDate =
     currentDate # futureDates_loop z n (next_day z currentDate)"

definition historicalTrendEnd :: "sales_record list \<Rightarrow> real" where
  "historicalTrendEnd historicalData =
     (if length historicalData > 1
      then (y (historicalData ! (length historicalData - 1)) - y (historicalData ! 0))
             / real (length historicalData)
      else 0)"

definition simulatedTrend :: "sales_record list \<Rightarrow> time_value \<Rightarrow> time_value \<Rightarrow> real" where
  "simulatedTrend historicalData lastHistoricalDate date =
     y (historicalData ! (length historicalData - 1))
       + real_of_int (date - lastHistoricalDate) / real_of_int (1000 * 60 * 60 * 24)
           * historicalTrendEnd historicalData * 0.1"

text \<open>The body of the \<^verbatim>\<open>futureDates.map\<close> callback, for a valid date.\<close>

definition forecast_of ::
  "host \<Rightarrow> sales_record list \<Rightarrow> time_value \<Rightarrow> time_value \<Rightarrow> forecast_record" where
  "forecast_of z historicalData lastHistoricalDate date =
     (let yhat0 = simulatedTrend historicalData lastHistoricalDate date
                    + yearlySeasonality z date + weeklySeasonality z date;
          uncertainty = 5
      in \<lparr>ds = toISODate date,
          yhat = max 0 (Math_round yhat0),
          yhat_lower = max 0 (Math_round (yhat0 - uncertainty)),
          yhat_upper = Math_round (yhat0 + uncertainty),
          trend = Math_round (simulatedTrend historicalData lastHistoricalDate date),
          yearly_seasonality = Math_round (yearlySeasonality z date),
          weekly_seasonality = Math_round (weeklySeasonality z date)\<rparr>)"

text \<open>
  \<^verbatim>\<open>futureDates.map(date => ...)\<close>: the callback's first statement is
  \<^verbatim>\<open>date.toISOString()\<close>, which throws a RangeError on an Invalid Date; the exception
  leaves the whole call.
\<close>

fun map_dates :: "(time_value \<Rightarrow> 'a) \<Rightarrow> time_value option list \<Rightarrow> error + 'a list" where
  "map_dates f [] = Inr []"
| "map_dates f (None # dates) = Inl RangeError"
| "map_dates f (Some t # dates) =
     (case map_dates f dates of Inl e \<Rightarrow> Inl e | Inr rs \<Rightarrow> Inr (f t # rs))"

text \<open>
  On an empty array \<^verbatim>\<open>historicalData[historicalData.length - 1]\<close> is \<^verbatim>\<open>undefined\<close> and
  reading its \<^verbatim>\<open>.ds\<close> throws a TypeError, whatever \<^verbatim>\<open>forecastPeriods\<close> is. When the last
  key is no calendar date, \<^verbatim>\<open>lastHistoricalDate\<close> is an Invalid Date and so is every future
  date: the first callback, if there is one, throws at \<^verbatim>\<open>toISOString\<close> before
  \<^verbatim>\<open>lastHistoricalDate\<close> is read, so the time value passed for it in that case is never used.
\<close>

definition simulateProphetForecast ::
  "host \<Rightarrow> sales_record list \<Rightarrow> int \<Rightarrow> error + forecast_record list" where
  "simulateProphetForecast z historicalData forecastPeriods =
     (if historicalData = [] then Inl TypeError
      else
        (let lastHistoricalDate = Date_parse (ds (historicalData ! (length historicalData - 1)));
             futureDates = futureDates_loop z (nat forecastPeriods) (next_day z lastHistoricalDate)
         in case lastHistoricalDate of
              None \<Rightarrow> map_dates (forecast_of z historicalData 0) futureDates
            | Some l \<Rightarrow> map_dates (forecast_of z historicalData l) futureDates))"

subsection \<open>3. Model evaluation\<close>

text \<open>An element of \<^verbatim>\<open>mergedData\<close>; \<open>None\<close> is \<^verbatim>\<open>null\<close>.\<close>

record merged =
  actual :: real
  predicted :: "real option"

definition evaluateModel ::
  "sales_record list \<Rightarrow> forecast_record list \<Rightarrow> error + metrics" where
  "evaluateModel actuals predictions =
     (let mergedData =
            filter (\<lambda>item. predicted item \<noteq> None)
              (map (\<lambda>item.
                      (let pred = find (\<lambda>p. ds p = ds item) predictions
                       in \<lparr>actual = y item,
                           predicted = (case pred of Some p \<Rightarrow> Some (yhat p) | None \<Rightarrow> None)\<rparr>))
                 actuals)
      in if length mergedData = 0 then Inr \<lparr>mae = 0, rmse = 0\<rparr>
         else
           (let actualValues = map actual mergedData;
                predictedValues = map (\<lambda>item. the (predicted item)) mergedData;
                mae = foldl (\<lambda>sum i. sum + \<bar>actualValues ! i - predictedValues ! i\<bar>) 0
                        [0..<length actualValues] / real (length actualValues);
                rmse = sqrt (foldl (\<lambda>sum i. sum + (actualValues ! i - predictedValues ! i) ^ 2) 0
                        [0..<length actualValues] / real (length actualValues))
            in Inr \<lparr>mae = mae, rmse = rmse\<rparr>))"

subsection \<open>4. Inventory recommendations\<close>

definition calculateInventoryRecommendations ::
  "forecast_record list \<Rightarrow> real \<Rightarrow> error + inventory_record list" where
  "calculateInventoryRecommendations forecasts safetyFactor =
     Inr (map (\<lambda>f. \<lparr>ds = ds f, yhat = yhat f,
                     recommended_inventory = Math_round (yhat f + (yhat f * safetyFactor))\<rparr>)
            forecasts)"

subsection \<open>The effect that runs on mount\<close>

definition bind :: "error + 'a \<Rightarrow> ('a \<Rightarrow> error + 'b) \<Rightarrow> error + 'b" where
  "bind r k = (case r of Inl e \<Rightarrow> Inl e | Inr v \<Rightarrow> k v)"

definition useEffect :: "host \<Rightarrow> (nat \<Rightarrow> real) \<Rightarrow> error + app_state" where
  "useEffect z rand =
     bind (generateSyntheticSalesData z START_DATE END_DATE rand) (\<lambda>historical.
     bind (simulateProphetForecast z historical (int (length historical))) (\<lambda>historicalForecastSim.
     bind (evaluateModel historical historicalForecastSim) (\<lambda>m.
     bind (simulateProphetForecast z historical FORECAST_PERIOD_DAYS) (\<lambda>futureForecast.
     bind (calculateInventoryRecommendations futureForecast SAFETY_STOCK_FACTOR) (\<lambda>inventoryRecs.
     Inr \<lparr>mae = mae m, rmse = rmse m, salesData = historical,
          forecastData = futureForecast, inventoryRecommendations = inventoryRecs\<rparr>)))))"

section \<open>Facts about the calendar\<close>

lemma InLeapYear_range: "0 \<le> InLeapYear k \<and> InLeapYear k \<le> 1"
  by (simp add: InLeapYear_def)

lemma DayFromYear_1970: "DayFromYear 1970 = 0"
  by (simp add: DayFromYear_def)

lemma DayFromYear_upper_pos: "0 \<le> k \<Longrightarrow> DayFromYear (1970 + k) \<le> 366 * k"
proof (induction k rule: int_ge_induct)
  case base
  show ?case by (simp add: DayFromYear_1970)
next
  case (step i)
  have "DayFromYear (1970 + i + 1) = DayFromYear (1970 + i) + 365 + InLeapYear (1970 + i)"
    by (rule DayFromYear_step)
  then show ?case using step.IH InLeapYear_range [of "1970 + i"]
    by (simp add: algebra_simps)
qed

lemma DayFromYear_upper_neg: "k \<le> 0 \<Longrightarrow> DayFromYear (1970 + k) \<le> 365 * k"
proof (induction k rule: int_le_induct)
  case base
  show ?case by (simp add: DayFromYear_1970)
next
  case (step i)
  have "DayFromYear (1970 + (i - 1) + 1) = DayFromYear (1970 + (i - 1)) + 365 + InLeapYear (1970 + (i - 1))"
    by (rule DayFromYear_step)
  then show ?case using step.IH InLeapYear_range [of "1970 + (i - 1)"]
    by (simp add: algebra_simps)
qed

lemma DayFromYear_mono: "a \<le> b \<Longrightarrow> DayFromYear a \<le> DayFromYear b"
proof (induction b rule: int_ge_induct)
  case base
  show ?case by simp
next
  case (step i)
  then show ?case using DayFromYear_step [of i] InLeapYear_range [of i] by simp
qed

lemma year_search_bounds:
  "DayFromYear k \<le> d \<Longrightarrow>
   DayFromYear (year_search k d) \<le> d \<and> d < DayFromYear (year_search k d + 1)"
proof (induction k d rule: year_search.induct)
  case (1 yr d)
  show ?case
  proof (cases "DayFromYear (yr + 1) \<le> d")
    case True
    then show ?thesis using "1.IH" by (subst (1 2) year_search.simps) simp
  next
    case False
    then show ?thesis using "1.prems" by (subst (1 2) year_search.simps) simp
  qed
qed

lemma YearFromTime_bounds:
  "DayFromYear (YearFromTime t) \<le> Day t \<and> Day t < DayFromYear (YearFromTime t + 1)"
proof -
  have "DayFromYear (1970 + (if 0 \<le> Day t then Day t div 366 else Day t div 365)) \<le> Day t"
  proof (cases "0 \<le> Day t")
    case True
    then have "0 \<le> Day t div 366" by simp
    then have "DayFromYear (1970 + Day t div 366) \<le> 366 * (Day t div 366)"
      by (rule DayFromYear_upper_pos)
    moreover have "366 * (Day t div 366) \<le> Day t"
      using mult_div_mod_eq [of 366 "Day t"] pos_mod_sign [of 366 "Day t"] by linarith
    ultimately show ?thesis using True by simp
  next
    case False
    then have "Day t div 365 \<le> 0" using pos_imp_zdiv_neg_iff [of 365 "Day t"] by simp
    then have "DayFromYear (1970 + Day t div 365) \<le> 365 * (Day t div 365)"
      by (rule DayFromYear_upper_neg)
    moreover have "365 * (Day t div 365) \<le> Day t"
      using mult_div_mod_eq [of 365 "Day t"] pos_mod_sign [of 365 "Day t"] by linarith
    ultimately show ?thesis using False by simp
  qed
  then show ?thesis
    unfolding YearFromTime_def Let_def by (rule year_search_bounds)
qed

lemma YearFromTime_unique:
  assumes "DayFromYear k \<le> Day t" "Day t < DayFromYear (k + 1)"
  shows "YearFromTime t = k"
proof (rule ccontr)
  assume ne: "YearFromTime t \<noteq> k"
  note b = YearFromTime_bounds [of t]
  show False
  proof (cases "YearFromTime t < k")
    case True
    then have "DayFromYear (YearFromTime t + 1) \<le> DayFromYear k"
      by (intro DayFromYear_mono) simp
    then show False using b assms by linarith
  next
    case False
    then have "DayFromYear (k + 1) \<le> DayFromYear (YearFromTime t)"
      using ne by (intro DayFromYear_mono) simp
    then show False using b assms by linarith
  qed
qed

lemma DayWithinYear_range:
  "0 \<le> DayWithinYear t \<and> DayWithinYear t < 365 + InLeapYear (YearFromTime t)"
  using YearFromTime_bounds [of t] DayFromYear_step [of "YearFromTime t"]
  by (simp add: DayWithinYear_def)

lemma DateFromTime_range:
  "1 \<le> DateFromTime t \<and> DateFromTime t \<le> DaysInMonth (YearFromTime t) (MonthFromTime t)"
  using DayWithinYear_range [of t] InLeapYear_range [of "YearFromTime t"]
  by (simp add: DateFromTime_def DaysInMonth_def MonthFromTime_def MonthStart_def Let_def)

lemma MonthFromTime_range: "0 \<le> MonthFromTime t \<and> MonthFromTime t \<le> 11"
  by (simp add: MonthFromTime_def Let_def)

lemma Day_mult: "t mod msPerDay = 0 \<Longrightarrow> Day t * msPerDay = t"
  using div_mult_mod_eq [of t msPerDay] by (simp add: Day_def)

lemma parse_toISODate:
  assumes "t mod msPerDay = 0" "\<bar>t\<bar> \<le> maxTime" "0 \<le> YearFromTime t"
  shows "Date_parse (toISODate t) = Some t"
proof -
  have "MakeDay (YearFromTime t) (MonthFromTime t) (DateFromTime t) = Day t"
    using MakeDay_self [of t 0] by simp
  then have "MakeDate (MakeDay (YearFromTime t) (MonthFromTime t) (DateFromTime t)) 0 = t"
    using Day_mult [OF assms(1)] by (simp add: MakeDate_def)
  then show ?thesis
    using assms(2,3) MonthFromTime_range [of t] DateFromTime_range [of t]
    by (simp add: Date_parse_def toISODate_def TimeClip_def)
qed

lemma month_cases:
  "0 \<le> (m::int) \<Longrightarrow> m \<le> 11 \<Longrightarrow>
   m = 0 \<or> m = 1 \<or> m = 2 \<or> m = 3 \<or> m = 4 \<or> m = 5 \<or> m = 6 \<or> m = 7 \<or> m = 8
     \<or> m = 9 \<or> m = 10 \<or> m = 11"
proof -
  assume "0 \<le> m" "m \<le> 11"
  then have "m \<in> {0..11}" by simp
  also have "{0..11} = set [0..(11::int)]" by simp
  also have "\<dots> = {0, 1, 2, 3, 4, 5, 6, 7, 8, 9, 10, 11}" by (simp add: upto.simps)
  finally show ?thesis by simp
qed

lemma MonthStart_mono_bound:
  assumes "0 \<le> l" "l \<le> 1" "0 \<le> m" "m \<le> 11" "1 \<le> d" "d \<le> MonthStart l (m + 1) - MonthStart l m"
  shows "0 \<le> MonthStart l m + d - 1 \<and> MonthStart l m + d - 1 < 365 + l"
proof -
  from assms(3,4) consider "m = 0" | "m = 1" | "m = 2" | "m = 3" | "m = 4" | "m = 5"
    | "m = 6" | "m = 7" | "m = 8" | "m = 9" | "m = 10" | "m = 11"
    using month_cases [of m] by blast
  then show ?thesis using assms(1,2,5,6)
    by cases (simp_all add: MonthStart_def)
qed

lemma Date_parse_Some:
  assumes "Date_parse s = Some t"
  shows "t mod msPerDay = 0" and "\<bar>t\<bar> \<le> maxTime"
    and "Day t = MakeDay (yyyy s) (mm s - 1) (dd s)"
    and "YearFromTime t = yyyy s" and "0 \<le> yyyy s"
proof -
  from assms have v: "0 \<le> yyyy s" "1 \<le> mm s" "mm s \<le> 12" "1 \<le> dd s"
      "dd s \<le> DaysInMonth (yyyy s) (mm s - 1)"
    and c: "TimeClip (MakeDate (MakeDay (yyyy s) (mm s - 1) (dd s)) 0) = Some t"
    by (simp_all add: Date_parse_def split: if_splits)
  from c have t: "t = MakeDay (yyyy s) (mm s - 1) (dd s) * msPerDay" and "\<bar>t\<bar> \<le> maxTime"
    by (simp_all add: TimeClip_def MakeDate_def split: if_splits)
  show "\<bar>t\<bar> \<le> maxTime" by fact
  show "t mod msPerDay = 0" using t by simp
  show d: "Day t = MakeDay (yyyy s) (mm s - 1) (dd s)"
    using t by (simp add: Day_def msPerDay_def)
  show "0 \<le> yyyy s" by fact
  have m: "(mm s - 1) div 12 = 0" "(mm s - 1) mod 12 = mm s - 1"
    using v(2,3) by simp_all
  have "0 \<le> MonthStart (InLeapYear (yyyy s)) (mm s - 1) + dd s - 1
      \<and> MonthStart (InLeapYear (yyyy s)) (mm s - 1) + dd s - 1 < 365 + InLeapYear (yyyy s)"
    using v InLeapYear_range [of "yyyy s"]
    by (intro MonthStart_mono_bound) (simp_all add: DaysInMonth_def)
  then have "DayFromYear (yyyy s) \<le> Day t" "Day t < DayFromYear (yyyy s + 1)"
    using d m DayFromYear_step [of "yyyy s"] by (simp_all add: MakeDay_def Let_def)
  then show "YearFromTime t = yyyy s" by (rule YearFromTime_unique)
qed

lemma YearFromTime_mono: "t \<le> u \<Longrightarrow> YearFromTime t \<le> YearFromTime u"
proof (rule ccontr)
  assume le: "t \<le> u" and "\<not> YearFromTime t \<le> YearFromTime u"
  then have "DayFromYear (YearFromTime u + 1) \<le> DayFromYear (YearFromTime t)"
    by (intro DayFromYear_mono) simp
  moreover have "Day t \<le> Day u"
    using le by (simp add: Day_def msPerDay_def zdiv_mono1)
  ultimately show False
    using YearFromTime_bounds [of t] YearFromTime_bounds [of u] by linarith
qed

lemma toISODate_parse:
  assumes "Date_parse s = Some t"
  shows "toISODate t = s"
proof -
  note p = Date_parse_Some [OF assms]
  from assms have v: "1 \<le> mm s" "mm s \<le> 12" "1 \<le> dd s"
      "dd s \<le> DaysInMonth (yyyy s) (mm s - 1)"
    by (simp_all add: Date_parse_def split: if_splits)
  have m: "(mm s - 1) div 12 = 0" "(mm s - 1) mod 12 = mm s - 1"
    using v(1,2) by simp_all
  define l where "l = InLeapYear (yyyy s)"
  have l: "0 \<le> l" "l \<le> 1" using InLeapYear_range [of "yyyy s"] by (simp_all add: l_def)
  have w: "DayWithinYear t = MonthStart l (mm s - 1) + dd s - 1"
    using p(3,4) m by (simp add: DayWithinYear_def MakeDay_def Let_def l_def)
  define m where "m = mm s - 1"
  have ms: "mm s = m + 1" by (simp add: m_def)
  have "0 \<le> m" "m \<le> 11" using v(1,2) by (simp_all add: m_def)
  then consider "m = 0" | "m = 1" | "m = 2" | "m = 3" | "m = 4" | "m = 5"
    | "m = 6" | "m = 7" | "m = 8" | "m = 9" | "m = 10" | "m = 11"
    using month_cases [of m] by blast
  then have "MonthFromTime t = m"
    using v(3,4) l w p(4) unfolding ms
    by cases (simp_all add: MonthFromTime_def DaysInMonth_def MonthStart_def Let_def l_def [symmetric])
  then have "MonthFromTime t = mm s - 1" by (simp add: m_def)
  then have "MonthFromTime t + 1 = mm s" and "DateFromTime t = dd s"
    using w p(4) by (simp_all add: DateFromTime_def l_def)
  then show ?thesis
    using p(4) by (simp add: toISODate_def)
qed

section \<open>Facts about the data generation\<close>

lemma dates_loop_invalid [simp]:
  "dates_loop z None e = []" "dates_loop z c None = []"
  by (simp_all add: dates_loop.simps split: option.splits)

lemma dates_loop_after: "e < c \<Longrightarrow> dates_loop z (Some c) (Some e) = []"
  by (simp add: dates_loop.simps)

lemma dates_loop_count:
  assumes "c \<le> e" "\<bar>c\<bar> \<le> maxTime" "\<bar>e\<bar> \<le> maxTime" "nat ((e - c) div msPerDay) = k"
  shows "dates_loop (plain_zone off) (Some c) (Some e) = map (\<lambda>i. c + int i * msPerDay) [0..<Suc k]"
  using assms
proof (induction k arbitrary: c)
  case 0
  have pos: "0 < msPerDay" by (simp add: msPerDay_def)
  have "(e - c) div msPerDay \<le> 0" using 0 by simp
  moreover have "0 \<le> (e - c) div msPerDay" using 0 pos by (simp add: pos_imp_zdiv_nonneg_iff)
  ultimately have "(e - c) div msPerDay = 0" by simp
  then have "e - c < msPerDay"
    using pos div_mult_mod_eq [of "e - c" msPerDay] pos_mod_bound [of msPerDay "e - c"] by simp
  then have "e < c + msPerDay" by simp
  then have "dates_loop (plain_zone off) (TimeClip (c + msPerDay)) (Some e) = []"
    by (simp add: TimeClip_def dates_loop_after)
  then show ?case using 0
    by (subst dates_loop.simps) (simp add: next_day_plain)
next
  case (Suc k)
  have pos: "0 < msPerDay" by (simp add: msPerDay_def)
  have d: "(e - c) div msPerDay = int k + 1" using Suc.prems by linarith
  have "e - c = msPerDay * ((e - c) div msPerDay) + (e - c) mod msPerDay" by simp
  then have "e - c = msPerDay * int k + msPerDay + (e - c) mod msPerDay"
    unfolding d by (simp add: algebra_simps)
  moreover have "0 \<le> (e - c) mod msPerDay" using pos by simp
  moreover have "0 \<le> msPerDay * int k" using pos by simp
  ultimately have le: "c + msPerDay \<le> e" by linarith
  then have clip: "TimeClip (c + msPerDay) = Some (c + msPerDay)"
    using Suc.prems pos by (simp add: TimeClip_def)
  have "(e - (c + msPerDay)) div msPerDay = (e - c) div msPerDay - 1"
    using pos div_add_self2 [of msPerDay "e - (c + msPerDay)"] by (simp add: algebra_simps)
  then have "nat ((e - (c + msPerDay)) div msPerDay) = k" using d by simp
  moreover have "\<bar>c + msPerDay\<bar> \<le> maxTime" using clip by (simp add: TimeClip_def split: if_splits)
  ultimately have "dates_loop (plain_zone off) (Some (c + msPerDay)) (Some e)
      = map (\<lambda>i. c + msPerDay + int i * msPerDay) [0..<Suc k]"
    using Suc.IH [of "c + msPerDay"] le Suc.prems by simp
  then have "dates_loop (plain_zone off) (Some c) (Some e)
      = c # map (\<lambda>i. c + msPerDay + int i * msPerDay) [0..<Suc k]"
    using Suc.prems(1) clip by (subst dates_loop.simps) (simp add: next_day_plain)
  also have "\<dots> = map (\<lambda>i. c + int i * msPerDay) [0..<Suc (Suc k)]"
    by (simp add: upt_conv_Cons map_Suc_upt [symmetric] algebra_simps del: upt_Suc)
  finally show ?case .
qed


lemma generate_result:
  assumes "generateSyntheticSalesData z s e rand = Inr rs"
  shows "length rs = length (dates_loop z (Date_parse s) (Date_parse e))"
    and "i < length rs \<Longrightarrow> ds (rs ! i) = toISODate (dates_loop z (Date_parse s) (Date_parse e) ! i)"
    and "i < length rs \<Longrightarrow> 0 \<le> y (rs ! i)"
proof -
  from assms show n: "length rs = length (dates_loop z (Date_parse s) (Date_parse e))"
    by (auto simp: generateSyntheticSalesData_def Let_def)
  {
    assume "i < length rs"
    with assms n show "ds (rs ! i) = toISODate (dates_loop z (Date_parse s) (Date_parse e) ! i)"
      by (auto simp: generateSyntheticSalesData_def Let_def)
  }
  {
    assume "i < length rs"
    with assms n show "0 \<le> y (rs ! i)"
      by (auto simp: generateSyntheticSalesData_def Let_def)
  }
qed

lemma generate_returns:
  "\<exists>rs. generateSyntheticSalesData z s e rand = Inr rs"
  by (simp add: generateSyntheticSalesData_def Let_def)

lemma generate_after:
  assumes "Date_parse s = Some ts" "Date_parse e = Some te" "te < ts"
  shows "generateSyntheticSalesData z s e rand = Inr []"
  using assms by (simp add: generateSyntheticSalesData_def dates_loop_after)

lemma generated_series_facts:
  assumes "Date_parse startDateStr = Some ts" "Date_parse endDateStr = Some te" "ts \<le> te"
  shows "\<exists>rs. generateSyntheticSalesData (plain_zone off) startDateStr endDateStr rand = Inr rs
    \<and> length rs = nat ((te - ts) div msPerDay) + 1
    \<and> (\<forall>i < length rs. Date_parse (ds (rs ! i)) = Some (ts + int i * msPerDay))
    \<and> (\<forall>i. Suc i < length rs \<longrightarrow>
          Date_parse (ds (rs ! Suc i)) = next_day (plain_zone off) (Date_parse (ds (rs ! i))))
    \<and> ds (rs ! 0) = startDateStr \<and> ds (rs ! (length rs - 1)) = endDateStr
    \<and> (\<forall>i < length rs. 0 \<le> y (rs ! i))"
proof -
  obtain rs where rs: "generateSyntheticSalesData (plain_zone off) startDateStr endDateStr rand = Inr rs"
    using generate_returns by blast
  note ps = Date_parse_Some [OF assms(1)] and pe = Date_parse_Some [OF assms(2)]
  define k where "k = nat ((te - ts) div msPerDay)"
  have pos: "0 < msPerDay" by (simp add: msPerDay_def)
  have dl: "dates_loop (plain_zone off) (Date_parse startDateStr) (Date_parse endDateStr)
      = map (\<lambda>i. ts + int i * msPerDay) [0..<Suc k]"
    unfolding assms(1,2) using assms(3) ps(2) pe(2) k_def [symmetric] by (rule dates_loop_count)
  have len: "length rs = Suc k"
    using generate_result(1) [OF rs] dl by simp
  have key: "ds (rs ! i) = toISODate (ts + int i * msPerDay)" if "i < Suc k" for i
    using generate_result(2) [OF rs, where i = i] that len dl by (simp del: upt_Suc)
  have "(te - ts) mod msPerDay = 0"
    using ps(1) pe(1) by (simp add: mod_diff_eq [symmetric] del: mod_diff_eq)
  then have span: "ts + int k * msPerDay = te"
    using div_mult_mod_eq [of "te - ts" msPerDay] assms(3) pos
    by (simp add: k_def pos_imp_zdiv_nonneg_iff)
  have parse: "Date_parse (ds (rs ! i)) = Some (ts + int i * msPerDay)" if "i < Suc k" for i
  proof -
    let ?t = "ts + int i * msPerDay"
    have "int i \<le> int k" using that by simp
    then have "int i * msPerDay \<le> int k * msPerDay" using pos by (simp add: mult_right_mono)
    then have hi: "?t \<le> te" using span by linarith
    have lo: "ts \<le> ?t" using pos by simp
    have "?t mod msPerDay = 0" using ps(1) by (simp add: mod_add_eq [symmetric] del: mod_add_eq)
    moreover have "\<bar>?t\<bar> \<le> maxTime" using lo hi ps(2) pe(2) by linarith
    moreover have "0 \<le> YearFromTime ?t"
      using YearFromTime_mono [OF lo] ps(4,5) by simp
    ultimately have "Date_parse (toISODate ?t) = Some ?t" by (rule parse_toISODate)
    then show ?thesis using key [OF that] by simp
  qed
  have step: "Date_parse (ds (rs ! Suc i)) = next_day (plain_zone off) (Date_parse (ds (rs ! i)))"
    if "Suc i < Suc k" for i
  proof -
    have "\<bar>ts + int (Suc i) * msPerDay\<bar> \<le> maxTime"
      using parse [OF that] by (auto dest: Date_parse_Some(2))
    then show ?thesis
      using parse [OF that] parse [of i] that
      by (simp add: next_day_plain TimeClip_def algebra_simps)
  qed
  have first: "ds (rs ! 0) = startDateStr"
    using key [of 0] toISODate_parse [OF assms(1)] by simp
  have lst: "ds (rs ! (length rs - 1)) = endDateStr"
    using key [of k] toISODate_parse [OF assms(2)] span len by simp
  have nonneg: "\<forall>i < length rs. 0 \<le> y (rs ! i)"
    using generate_result(3) [OF rs] by blast
  show ?thesis
    using rs len parse step first lst nonneg by (auto simp: k_def)
qed

section \<open>Facts about the forecast simulation and the evaluation\<close>

lemma next_day_None [simp]: "next_day z None = None"
  by (simp add: next_day_def)

lemma futureDates_invalid: "futureDates_loop z n None = replicate n None"
  by (induction n) simp_all

lemma map_dates_invalid:
  "map_dates f (replicate n None) = (if n = 0 then Inr [] else Inl RangeError)"
  by (cases n) simp_all

lemma map_dates_future:
  assumes "\<bar>t0\<bar> \<le> maxTime"
  shows "map_dates f (futureDates_loop (plain_zone off) n (next_day (plain_zone off) (Some t0))) =
    (if t0 + int n * msPerDay \<le> maxTime
     then Inr (map (\<lambda>i. f (t0 + (int i + 1) * msPerDay)) [0..<n])
     else Inl RangeError)"
  using assms
proof (induction n arbitrary: t0)
  case 0
  then show ?case by simp
next
  case (Suc n)
  have pos: "0 < msPerDay" by (simp add: msPerDay_def)
  show ?case
  proof (cases "t0 + msPerDay \<le> maxTime")
    case True
    then have clip: "next_day (plain_zone off) (Some t0) = Some (t0 + msPerDay)"
      using Suc.prems pos by (simp add: next_day_plain TimeClip_def)
    have "\<bar>t0 + msPerDay\<bar> \<le> maxTime" using True Suc.prems pos by simp
    then have ih: "map_dates f (futureDates_loop (plain_zone off) n (next_day (plain_zone off) (Some (t0 + msPerDay)))) =
      (if t0 + msPerDay + int n * msPerDay \<le> maxTime
       then Inr (map (\<lambda>i. f (t0 + msPerDay + (int i + 1) * msPerDay)) [0..<n])
       else Inl RangeError)"
      by (rule Suc.IH)
    have shift: "map (\<lambda>i. f (t0 + (int i + 1) * msPerDay)) [0..<Suc n]
        = f (t0 + msPerDay) # map (\<lambda>i. f (t0 + msPerDay + (int i + 1) * msPerDay)) [0..<n]"
      by (simp add: upt_conv_Cons map_Suc_upt [symmetric] algebra_simps del: upt_Suc)
    show ?thesis
      unfolding shift using ih clip by (simp add: algebra_simps)
  next
    case False
    then have "next_day (plain_zone off) (Some t0) = None"
      by (simp add: next_day_plain TimeClip_def)
    moreover have "\<not> t0 + int (Suc n) * msPerDay \<le> maxTime"
    proof -
      have "0 \<le> int n * msPerDay" using pos by simp
      then show ?thesis using False by (simp add: algebra_simps)
    qed
    ultimately show ?thesis by simp
  qed
qed

lemma simulate_empty: "simulateProphetForecast z [] n = Inl TypeError"
  by (simp add: simulateProphetForecast_def)

lemma simulate_invalid:
  assumes "h \<noteq> []" "Date_parse (ds (h ! (length h - 1))) = None"
  shows "simulateProphetForecast z h n = (if 0 < n then Inl RangeError else Inr [])"
  using assms
  by (simp add: simulateProphetForecast_def futureDates_invalid map_dates_invalid)

lemma simulate_valid:
  assumes "h \<noteq> []" "Date_parse (ds (h ! (length h - 1))) = Some t0"
  shows "simulateProphetForecast (plain_zone off) h n =
    (if t0 + int (nat n) * msPerDay \<le> maxTime
     then Inr (map (\<lambda>i. forecast_of (plain_zone off) h t0 (t0 + (int i + 1) * msPerDay)) [0..<nat n])
     else Inl RangeError)"
proof -
  have "\<bar>t0\<bar> \<le> maxTime" using assms(2) by (rule Date_parse_Some(2))
  then show ?thesis
    using assms by (simp add: simulateProphetForecast_def map_dates_future)
qed

lemma ds_forecast_of [simp]: "ds (forecast_of z h t0 t) = toISODate t"
  by (simp add: forecast_of_def Let_def)

lemma parse_future_key:
  assumes "Date_parse s = Some t0" "t0 + int n * msPerDay \<le> maxTime" "i < n"
  shows "Date_parse (toISODate (t0 + (int i + 1) * msPerDay)) = Some (t0 + (int i + 1) * msPerDay)"
    and "t0 < t0 + (int i + 1) * msPerDay"
proof -
  let ?t = "t0 + (int i + 1) * msPerDay"
  note p = Date_parse_Some [OF assms(1)]
  have pos: "0 < msPerDay" by (simp add: msPerDay_def)
  have "0 < (int i + 1) * msPerDay" using pos by simp
  then show lo: "t0 < ?t" by simp
  have "int i + 1 \<le> int n" using assms(3) by simp
  then have "(int i + 1) * msPerDay \<le> int n * msPerDay" using pos by (simp add: mult_right_mono)
  then have hi: "?t \<le> maxTime" using assms(2) by linarith
  have "?t mod msPerDay = 0" using p(1) by (simp add: mod_add_eq [symmetric] del: mod_add_eq)
  moreover have "\<bar>?t\<bar> \<le> maxTime" using lo hi p(2) by linarith
  moreover have "0 \<le> YearFromTime ?t"
    using YearFromTime_mono [of t0 ?t] lo p(4,5) by simp
  ultimately show "Date_parse (toISODate ?t) = Some ?t" by (rule parse_toISODate)
qed

lemma backtest_keys:
  assumes "h \<noteq> []" "simulateProphetForecast (plain_zone off) h (int (length h)) = Inr bt"
  shows "\<exists>t0. Date_parse (ds (h ! (length h - 1))) = Some t0 \<and> length bt = length h
     \<and> (\<forall>f \<in> set bt. \<exists>tf. Date_parse (ds f) = Some tf \<and> t0 < tf)"
proof (cases "Date_parse (ds (h ! (length h - 1)))")
  case None
  then show ?thesis using assms simulate_invalid [OF assms(1) None, where n = "int (length h)"] by simp
next
  case (Some t0)
  let ?n = "length h"
  from simulate_valid [OF assms(1) Some, where n = "int ?n" and off = off] assms(2)
  have ok: "t0 + int ?n * msPerDay \<le> maxTime"
    and bt: "bt = map (\<lambda>i. forecast_of (plain_zone off) h t0 (t0 + (int i + 1) * msPerDay)) [0..<?n]"
    by (simp_all split: if_splits)
  have keys: "\<exists>tf. Date_parse (ds f) = Some tf \<and> t0 < tf" if "f \<in> set bt" for f
  proof -
    from that bt obtain i where "i < ?n" and "f = forecast_of (plain_zone off) h t0 (t0 + (int i + 1) * msPerDay)"
      by auto
    then show ?thesis using parse_future_key [OF Some ok, of i] by simp
  qed
  have "length bt = length h" using bt by simp
  then show ?thesis using Some keys by blast
qed

lemma evaluate_no_overlap:
  assumes "\<forall>a \<in> set actuals. \<forall>p \<in> set predictions. ds p \<noteq> ds a"
  shows "evaluateModel actuals predictions = Inr \<lparr>mae = 0, rmse = 0\<rparr>"
proof -
  have "find (\<lambda>p. ds p = ds a) predictions = None" if "a \<in> set actuals" for a
    using assms that by (simp add: find_None_iff)
  then have "filter (\<lambda>item. predicted item \<noteq> None)
      (map (\<lambda>item. (let pred = find (\<lambda>p. ds p = ds item) predictions
               in \<lparr>actual = y item,
                   predicted = (case pred of Some p \<Rightarrow> Some (yhat p) | None \<Rightarrow> None)\<rparr>))
         actuals) = []"
    by (simp add: filter_empty_conv)
  then show ?thesis
    by (simp add: evaluateModel_def)
qed

section \<open>Rounding, and the effect as a whole\<close>

lemma Math_round_mono: "a \<le> b \<Longrightarrow> Math_round a \<le> Math_round b"
  by (simp add: Math_round_def floor_mono)

lemma Math_round_of_int [simp]: "Math_round (of_int n) = of_int n"
  by (simp add: Math_round_def)

lemma Math_round_0 [simp]: "Math_round 0 = 0"
  using Math_round_of_int [of 0] by simp

lemma Math_round_max0: "max 0 (Math_round a) = Math_round (max 0 a)"
proof (cases "0 \<le> a")
  case True
  then have "0 \<le> Math_round a" using Math_round_mono [of 0 a] by simp
  then show ?thesis using True by (simp add: max_def)
next
  case False
  then have "Math_round a \<le> 0" using Math_round_mono [of a 0] by simp
  then show ?thesis using False by (simp add: max_def)
qed

lemma START_DATE_parse: "Date_parse START_DATE = Some 1640995200000"
  by (simp add: START_DATE_def Date_parse_def DaysInMonth_def MonthStart_def InLeapYear_def
      MakeDate_def MakeDay_def DayFromYear_def TimeClip_def msPerDay_def maxTime_def)

lemma END_DATE_parse: "Date_parse END_DATE = Some 1735603200000"
  by (simp add: END_DATE_def Date_parse_def DaysInMonth_def MonthStart_def InLeapYear_def
      MakeDate_def MakeDay_def DayFromYear_def TimeClip_def msPerDay_def maxTime_def)

lemma Date_parse_20250101: "Date_parse \<lparr>yyyy = 2025, mm = 1, dd = 1\<rparr> = Some 1735689600000"
  by (simp add: Date_parse_def DaysInMonth_def MonthStart_def InLeapYear_def
      MakeDate_def MakeDay_def DayFromYear_def TimeClip_def msPerDay_def maxTime_def)

lemma calculate_returns:
  "calculateInventoryRecommendations fs sf = Inr rs \<Longrightarrow> length rs = length fs"
  by (auto simp: calculateInventoryRecommendations_def)

lemma useEffect_facts:
  "\<exists>st bt. useEffect (plain_zone off) rand = Inr st \<and> mae st = 0 \<and> rmse st = 0
     \<and> length (salesData st) = 1096 \<and> length (forecastData st) = 90
     \<and> length (inventoryRecommendations st) = 90
     \<and> ds (salesData st ! 0) = START_DATE \<and> ds (salesData st ! 1095) = END_DATE
     \<and> simulateProphetForecast (plain_zone off) (salesData st) (int (length (salesData st))) = Inr bt
     \<and> length bt = 1096 \<and> ds (bt ! 0) = \<lparr>yyyy = 2025, mm = 1, dd = 1\<rparr>
     \<and> (\<forall>f \<in> set bt. \<exists>tf. Date_parse (ds f) = Some tf \<and> 1735603200000 < tf)
     \<and> (\<forall>a \<in> set (salesData st). \<exists>ta. Date_parse (ds a) = Some ta \<and> ta \<le> 1735603200000)"
proof -
  let ?ts = "1640995200000 :: int" and ?te = "1735603200000 :: int"
  from generated_series_facts [OF START_DATE_parse END_DATE_parse, where rand = rand and off = off]
  obtain hist where hist: "generateSyntheticSalesData (plain_zone off) START_DATE END_DATE rand = Inr hist"
    and len: "length hist = 1096"
    and keys: "\<forall>i < length hist. Date_parse (ds (hist ! i)) = Some (?ts + int i * msPerDay)"
    and first: "ds (hist ! 0) = START_DATE"
    and lst: "ds (hist ! (length hist - 1)) = END_DATE"
    by (auto simp: msPerDay_def)
  have ne: "hist \<noteq> []" using len by auto
  have lastp: "Date_parse (ds (hist ! (length hist - 1))) = Some ?te"
    using lst END_DATE_parse by simp
  define bt where "bt = map (\<lambda>i. forecast_of (plain_zone off) hist ?te (?te + (int i + 1) * msPerDay)) [0..<1096]"
  have sim1: "simulateProphetForecast (plain_zone off) hist (int (length hist)) = Inr bt"
    using simulate_valid [OF ne lastp, where n = "int (length hist)" and off = off] len
    by (simp add: bt_def msPerDay_def maxTime_def)
  from backtest_keys [OF ne sim1] lastp
  have after: "\<forall>f \<in> set bt. \<exists>tf. Date_parse (ds f) = Some tf \<and> ?te < tf" by simp
  have before: "\<exists>ta. Date_parse (ds a) = Some ta \<and> ta \<le> ?te" if "a \<in> set hist" for a
  proof -
    from that obtain i where i: "i < length hist" "a = hist ! i"
      by (auto simp: in_set_conv_nth)
    then have "Date_parse (ds a) = Some (?ts + int i * msPerDay)" using keys by simp
    moreover have "?ts + int i * msPerDay \<le> ?te"
      using i(1) len by (simp add: msPerDay_def)
    ultimately show ?thesis by simp
  qed
  have "\<forall>a \<in> set hist. \<forall>p \<in> set bt. ds p \<noteq> ds a"
  proof (intro ballI notI)
    fix a p assume "a \<in> set hist" "p \<in> set bt" "ds p = ds a"
    then show False using before [of a] after by fastforce
  qed
  then have ev: "evaluateModel hist bt = Inr \<lparr>mae = 0, rmse = 0\<rparr>"
    by (rule evaluate_no_overlap)
  define fc where "fc = map (\<lambda>i. forecast_of (plain_zone off) hist ?te (?te + (int i + 1) * msPerDay)) [0..<90]"
  have sim2: "simulateProphetForecast (plain_zone off) hist FORECAST_PERIOD_DAYS = Inr fc"
    using simulate_valid [OF ne lastp, where n = FORECAST_PERIOD_DAYS and off = off]
    by (simp add: fc_def FORECAST_PERIOD_DAYS_def msPerDay_def maxTime_def)
  obtain recs where recs: "calculateInventoryRecommendations fc SAFETY_STOCK_FACTOR = Inr recs"
    by (simp add: calculateInventoryRecommendations_def)
  have "length recs = 90" using calculate_returns [OF recs] by (simp add: fc_def)
  moreover have "useEffect (plain_zone off) rand = Inr \<lparr>mae = 0, rmse = 0, salesData = hist,
      forecastData = fc, inventoryRecommendations = recs\<rparr>"
    by (simp add: useEffect_def bind_def hist sim1 ev sim2 recs)
  moreover have "length bt = 1096" "length fc = 90" by (simp_all add: bt_def fc_def)
  moreover have "ds (bt ! 0) = \<lparr>yyyy = 2025, mm = 1, dd = 1\<rparr>"
  proof -
    have "bt ! 0 = forecast_of (plain_zone off) hist ?te (?te + (int 0 + 1) * msPerDay)"
      unfolding bt_def by (subst nth_map) simp_all
    then show ?thesis
      using toISODate_parse [OF Date_parse_20250101] by (simp add: msPerDay_def)
  qed
  ultimately show ?thesis
    using len first lst sim1 after before by auto
qed

section \<open>Bounds on the components, and two concrete histories\<close>

lemma yearlySeasonality_bounds: "- 10 \<le> yearlySeasonality z t \<and> yearlySeasonality z t \<le> 10"
proof -
  have "- 1 \<le> sin (real_of_int (dayOfYear z t) * (2 * pi / 365))"
    and "sin (real_of_int (dayOfYear z t) * (2 * pi / 365)) \<le> 1"
    by simp_all
  then show ?thesis unfolding yearlySeasonality_def by linarith
qed

lemma weeklySeasonality_bounds: "0 \<le> weeklySeasonality z t \<and> weeklySeasonality z t \<le> 15"
  by (simp add: weeklySeasonality_def Let_def)

lemma forecast_lower_le_yhat: "yhat_lower (forecast_of z h t0 t) \<le> yhat (forecast_of z h t0 t)"
proof -
  have "Math_round (a - 5) \<le> Math_round a" for a :: real
    by (rule Math_round_mono) simp
  then show ?thesis
    by (auto simp: forecast_of_def Let_def max_def intro: order_trans)
qed

lemma forecast_yhat_le_upper:
  "0 \<le> yhat_upper (forecast_of z h t0 t) \<Longrightarrow> yhat (forecast_of z h t0 t) \<le> yhat_upper (forecast_of z h t0 t)"
proof -
  have "Math_round a \<le> Math_round (a + 5)" for a :: real
    by (rule Math_round_mono) simp
  then show "0 \<le> yhat_upper (forecast_of z h t0 t) \<Longrightarrow> ?thesis"
    by (simp add: forecast_of_def Let_def)
qed

lemma Date_parse_20240101: "Date_parse \<lparr>yyyy = 2024, mm = 1, dd = 1\<rparr> = Some 1704067200000"
  by (simp add: Date_parse_def DaysInMonth_def MonthStart_def InLeapYear_def
      MakeDate_def MakeDay_def DayFromYear_def TimeClip_def msPerDay_def maxTime_def)

lemma Date_parse_20240102: "Date_parse \<lparr>yyyy = 2024, mm = 1, dd = 2\<rparr> = Some 1704153600000"
  by (simp add: Date_parse_def DaysInMonth_def MonthStart_def InLeapYear_def
      MakeDate_def MakeDay_def DayFromYear_def TimeClip_def msPerDay_def maxTime_def)

lemma Date_parse_20240103: "Date_parse \<lparr>yyyy = 2024, mm = 1, dd = 3\<rparr> = Some 1704240000000"
  by (simp add: Date_parse_def DaysInMonth_def MonthStart_def InLeapYear_def
      MakeDate_def MakeDay_def DayFromYear_def TimeClip_def msPerDay_def maxTime_def)

lemma falling_history_run:
  "simulateProphetForecast (plain_zone off)
     [\<lparr>ds = \<lparr>yyyy = 2024, mm = 1, dd = 1\<rparr>, y = 1000\<rparr>,
      \<lparr>ds = \<lparr>yyyy = 2024, mm = 1, dd = 2\<rparr>, y = 0\<rparr>] 1
   = Inr [forecast_of (plain_zone off)
       [\<lparr>ds = \<lparr>yyyy = 2024, mm = 1, dd = 1\<rparr>, y = 1000\<rparr>,
        \<lparr>ds = \<lparr>yyyy = 2024, mm = 1, dd = 2\<rparr>, y = 0\<rparr>] 1704153600000 1704240000000]"
  by (subst simulate_valid [where ?t0.0 = 1704153600000])
    (simp_all add: Date_parse_20240102 msPerDay_def maxTime_def)

lemma falling_history_trend:
  "simulatedTrend
     [\<lparr>ds = \<lparr>yyyy = 2024, mm = 1, dd = 1\<rparr>, y = 1000\<rparr>,
      \<lparr>ds = \<lparr>yyyy = 2024, mm = 1, dd = 2\<rparr>, y = 0\<rparr>] 1704153600000 1704240000000 = - 50"
  by (simp add: simulatedTrend_def historicalTrendEnd_def)

lemma falling_history_record:
  fixes r :: forecast_record
  assumes "r = forecast_of (plain_zone off)
       [\<lparr>ds = \<lparr>yyyy = 2024, mm = 1, dd = 1\<rparr>, y = 1000\<rparr>,
        \<lparr>ds = \<lparr>yyyy = 2024, mm = 1, dd = 2\<rparr>, y = 0\<rparr>] 1704153600000 1704240000000"
  shows "yhat_lower r = 0" and "yhat r = 0" and "yhat_upper r \<le> - 20"
proof -
  define v where "v = yearlySeasonality (plain_zone off) 1704240000000 + weeklySeasonality (plain_zone off) 1704240000000"
  have v: "v \<le> 25"
    using yearlySeasonality_bounds [of "plain_zone off" 1704240000000]
      weeklySeasonality_bounds [of "plain_zone off" 1704240000000]
    by (simp add: v_def)
  have up: "Math_round (- 50 + v + 5) \<le> Math_round (- 20)"
    using v by (intro Math_round_mono) simp
  have mid: "Math_round (- 50 + v) \<le> Math_round (- 25)"
    using v by (intro Math_round_mono) simp
  have lo: "Math_round (- 50 + v - 5) \<le> Math_round (- 30)"
    using v by (intro Math_round_mono) simp
  have r20: "Math_round (- 20) = - 20" "Math_round (- 25) = - 25" "Math_round (- 30) = - 30"
    using Math_round_of_int [of "- 20"] Math_round_of_int [of "- 25"] Math_round_of_int [of "- 30"]
    by simp_all
  show "yhat_lower r = 0" using lo r20
    by (simp add: assms forecast_of_def Let_def falling_history_trend v_def algebra_simps max_def)
  show "yhat r = 0" using mid r20
    by (simp add: assms forecast_of_def Let_def falling_history_trend v_def algebra_simps max_def)
  show "yhat_upper r \<le> - 20" using up r20
    by (simp add: assms forecast_of_def Let_def falling_history_trend v_def algebra_simps)
qed

lemma single_day_run:
  "simulateProphetForecast (plain_zone off) [\<lparr>ds = \<lparr>yyyy = 2024, mm = 1, dd = 1\<rparr>, y = 100\<rparr>] 1
   = Inr [forecast_of (plain_zone off) [\<lparr>ds = \<lparr>yyyy = 2024, mm = 1, dd = 1\<rparr>, y = 100\<rparr>]
            1704067200000 1704153600000]"
  by (subst simulate_valid [where ?t0.0 = 1704067200000])
    (simp_all add: Date_parse_20240101 msPerDay_def maxTime_def)

lemma single_day_slope:
  "historicalTrendEnd [\<lparr>ds = \<lparr>yyyy = 2024, mm = 1, dd = 1\<rparr>, y = 100\<rparr>] = 0"
  by (simp add: historicalTrendEnd_def)

lemma single_day_trend:
  "simulatedTrend [\<lparr>ds = \<lparr>yyyy = 2024, mm = 1, dd = 1\<rparr>, y = 100\<rparr>]
     1704067200000 1704153600000 = 100"
  by (simp add: simulatedTrend_def historicalTrendEnd_def)

lemma LocalTime_plain [simp]: "LocalTime (plain_zone off) t = t + off"
  by (simp add: LocalTime_def)

lemma UTC_plain [simp]: "UTC (plain_zone off) t = t - off"
  by (simp add: UTC_def)

lemma single_day_local:
  assumes "- msPerDay < off" "off < msPerDay"
  shows "Day (1704153600000 + off) = (if 0 \<le> off then 19724 else 19723)"
    and "YearFromTime (1704153600000 + off) = 2024"
proof -
  show d: "Day (1704153600000 + off) = (if 0 \<le> off then 19724 else 19723)"
  proof (cases "0 \<le> off")
    case True
    have "1704153600000 + off = msPerDay * 19724 + off" by (simp add: msPerDay_def)
    moreover note True assms(2)
    ultimately have "(1704153600000 + off) div msPerDay = 19724"
      by (rule int_div_pos_eq)
    then show ?thesis using True by (simp add: Day_def)
  next
    case False
    have "1704153600000 + off = msPerDay * 19723 + (off + msPerDay)" by (simp add: msPerDay_def)
    moreover have "0 \<le> off + msPerDay" "off + msPerDay < msPerDay" using assms(1) False by simp_all
    ultimately have "(1704153600000 + off) div msPerDay = 19723"
      by (rule int_div_pos_eq)
    then show ?thesis using False by (simp add: Day_def)
  qed
  have "DayFromYear 2024 = 19723" "DayFromYear (2024 + 1) = 20089"
    by (simp_all add: DayFromYear_def)
  then have "DayFromYear 2024 \<le> Day (1704153600000 + off)"
    "Day (1704153600000 + off) < DayFromYear (2024 + 1)"
    using d by (simp_all split: if_splits)
  then show "YearFromTime (1704153600000 + off) = 2024" by (rule YearFromTime_unique)
qed

lemma single_day_dayOfYear:
  assumes "- msPerDay < off" "off < msPerDay"
  shows "dayOfYear (plain_zone off) 1704153600000 = (if 0 \<le> off then 2 else 1)"
proof -
  have ymd: "Date_ymd (plain_zone off) 2024 0 0 = 19722 * msPerDay - off"
    by (simp add: Date_ymd_def MakeDate_def MakeDay_def DayFromYear_def MonthStart_def
        InLeapYear_def)
  have e: "1704153600000 - (19722 * msPerDay - off) = 2 * msPerDay + off"
    by (simp add: msPerDay_def)
  have "dayOfYear (plain_zone off) 1704153600000
      = \<lfloor>real_of_int (2 * msPerDay + off) / real_of_int msPerDay\<rfloor>"
    unfolding dayOfYear_def getFullYear_def LocalTime_plain single_day_local(2) [OF assms] ymd e
    by (rule refl)
  also have "\<dots> = (2 * msPerDay + off) div msPerDay"
    by (rule floor_divide_of_int_eq)
  also have "\<dots> = 2 + off div msPerDay"
    by (simp add: msPerDay_def)
  also have "off div msPerDay = (if 0 \<le> off then 0 else - 1)"
  proof (cases "0 \<le> off")
    case True
    then show ?thesis using assms(2) by simp
  next
    case False
    have "off = msPerDay * (- 1) + (off + msPerDay)" by simp
    moreover have "0 \<le> off + msPerDay" "off + msPerDay < msPerDay" using assms(1) False by simp_all
    ultimately have "off div msPerDay = - 1" by (rule int_div_pos_eq)
    then show ?thesis using False by simp
  qed
  finally show ?thesis by simp
qed

lemma single_day_weekly:
  assumes "- msPerDay < off" "off < msPerDay"
  shows "weeklySeasonality (plain_zone off) 1704153600000 = 0"
  using single_day_local(1) [OF assms]
  by (simp add: weeklySeasonality_def getDay_def WeekDay_def Let_def split: if_splits)

lemma small_angle:
  fixes x :: real
  assumes "0 \<le> x" "x < 1 / 20"
  shows "0 \<le> 10 * sin x \<and> 10 * sin x < 1 / 2"
proof -
  have "x \<le> pi" using assms(2) pi_ge_two by linarith
  then have "0 \<le> sin x" using assms(1) by (simp add: sin_ge_zero)
  moreover have "sin x \<le> x" using assms(1) by (rule sin_x_le_x)
  ultimately show ?thesis using assms(2) by simp
qed

lemma single_day_yearly:
  assumes "- msPerDay < off" "off < msPerDay"
  shows "0 \<le> yearlySeasonality (plain_zone off) 1704153600000
    \<and> yearlySeasonality (plain_zone off) 1704153600000 < 1 / 2"
proof -
  have p4: "pi < 4" using pi_half_less_two by simp
  have a2: "0 \<le> 2 * (2 * pi / 365)" and b2: "2 * (2 * pi / 365) < 1 / 20"
    using p4 by simp_all
  have a1: "0 \<le> 1 * (2 * pi / 365)" and b1: "1 * (2 * pi / 365) < 1 / 20"
    using p4 by simp_all
  note s2 = small_angle [OF a2 b2] and s1 = small_angle [OF a1 b1]
  show ?thesis
  proof (cases "0 \<le> off")
    case True
    then have "dayOfYear (plain_zone off) 1704153600000 = 2"
      using single_day_dayOfYear [OF assms] by simp
    then show ?thesis using s2 by (simp add: yearlySeasonality_def)
  next
    case False
    then have "dayOfYear (plain_zone off) 1704153600000 = 1"
      using single_day_dayOfYear [OF assms] by simp
    then show ?thesis using s1 by (simp add: yearlySeasonality_def)
  qed
qed

lemma single_day_yhat:
  assumes "- msPerDay < off" "off < msPerDay"
  shows "yhat (forecast_of (plain_zone off) [\<lparr>ds = \<lparr>yyyy = 2024, mm = 1, dd = 1\<rparr>, y = 100\<rparr>]
     1704067200000 1704153600000) = 100"
proof -
  define v where "v = yearlySeasonality (plain_zone off) 1704153600000"
  have v: "0 \<le> v" "v < 1 / 2" using single_day_yearly [OF assms] by (simp_all add: v_def)
  have "\<lfloor>100 + v + 1 / 2\<rfloor> = 100" using v by linarith
  then have "Math_round (100 + v) = 100" by (simp add: Math_round_def)
  then show ?thesis
    by (simp add: forecast_of_def Let_def single_day_trend single_day_weekly [OF assms] v_def)
qed

lemma single_day_record:
  fixes r :: forecast_record
  assumes "r = forecast_of (plain_zone off) [\<lparr>ds = \<lparr>yyyy = 2024, mm = 1, dd = 1\<rparr>, y = 100\<rparr>]
     1704067200000 1704153600000"
  shows "ds r = \<lparr>yyyy = 2024, mm = 1, dd = 2\<rparr>"
    and "trend r = 100"
    and "yhat r = Math_round (max 0 (100 + yearlySeasonality (plain_zone off) 1704153600000
            + weeklySeasonality (plain_zone off) 1704153600000))"
    and "- msPerDay < off \<Longrightarrow> off < msPerDay \<Longrightarrow> yhat r = 100"
proof -
  show "ds r = \<lparr>yyyy = 2024, mm = 1, dd = 2\<rparr>"
    using toISODate_parse [OF Date_parse_20240102] by (simp add: assms)
  show "trend r = 100"
    using Math_round_of_int [of 100] by (simp add: assms forecast_of_def Let_def single_day_trend)
  show "yhat r = Math_round (max 0 (100 + yearlySeasonality (plain_zone off) 1704153600000
            + weeklySeasonality (plain_zone off) 1704153600000))"
    by (simp add: assms forecast_of_def Let_def single_day_trend Math_round_max0)
  show "- msPerDay < off \<Longrightarrow> off < msPerDay \<Longrightarrow> yhat r = 100"
    by (simp add: assms single_day_yhat)
qed

lemma calculate_nth:
  assumes "calculateInventoryRecommendations fs sf = Inr rs" "i < length fs"
  shows "ds (rs ! i) = ds (fs ! i)" and "yhat (rs ! i) = yhat (fs ! i)"
    and "recommended_inventory (rs ! i) = Math_round (yhat (fs ! i) + yhat (fs ! i) * sf)"
  using assms by (auto simp: calculateInventoryRecommendations_def)

lemma calculate_total: "\<exists>rs. calculateInventoryRecommendations fs sf = Inr rs"
  by (simp add: calculateInventoryRecommendations_def)

lemma recommended_mono:
  assumes "0 \<le> v" "f1 \<le> f2"
  shows "Math_round (v + v * f1) \<le> Math_round (v + v * f2)"
  using assms by (intro Math_round_mono) (simp add: mult_left_mono)

section \<open>The year-start date stays in range\<close>

lemma Date_ymd_in_range:
  assumes "\<bar>t\<bar> \<le> maxTime" "0 \<le> getFullYear z t" "\<bar>standard_offset z\<bar> \<le> msPerDay"
  shows "\<bar>Date_ymd z (getFullYear z t) 0 0\<bar> \<le> maxTime"
proof -
  let ?lt = "LocalTime z t"
  define k where "k = (if YearFromTime ?lt \<le> 99 then 1900 + YearFromTime ?lt else YearFromTime ?lt)"
  define m where "m = (DayFromYear k - 1) * msPerDay"
  define o2 where "o2 = LocalTZA z m False"
  define o1 where "o1 = LocalTZA z t True"
  have yr: "0 \<le> YearFromTime ?lt" using assms(2) by (simp add: getFullYear_def)
  have eq: "Date_ymd z (getFullYear z t) 0 0 = m - o2"
    using yr
    by (simp add: Date_ymd_def getFullYear_def MakeDate_def MakeDay_def MonthStart_def k_def Let_def
        m_def o2_def UTC_def)
  have o: "standard_offset z \<le> o1" "o1 \<le> standard_offset z + msPerHour"
    "standard_offset z \<le> o2" "o2 \<le> standard_offset z + msPerHour"
    using LocalTZA_range [of z t True] LocalTZA_range [of z m False] by (simp_all add: o1_def o2_def)
  have pos: "0 < msPerDay" by (simp add: msPerDay_def)
  have "100 \<le> k" using yr by (simp add: k_def)
  then have "DayFromYear 100 \<le> DayFromYear k" by (rule DayFromYear_mono)
  moreover have "DayFromYear 100 = - 683003" by (simp add: DayFromYear_def)
  ultimately have "- 683004 \<le> DayFromYear k - 1" by simp
  then have "- 683004 * msPerDay \<le> m"
    unfolding m_def using pos by (intro mult_right_mono) simp_all
  then have lo: "- maxTime \<le> m - o2"
    using o(4) assms(3) by (simp add: msPerDay_def maxTime_def msPerHour_def)
  have hi: "m - o2 \<le> maxTime"
  proof (cases "YearFromTime ?lt \<le> 99")
    case True
    then have "DayFromYear k \<le> DayFromYear 1999"
      unfolding k_def by (intro DayFromYear_mono) simp
    moreover have "DayFromYear 1999 = 10592" by (simp add: DayFromYear_def)
    ultimately have "DayFromYear k - 1 \<le> 10592" by simp
    then have "m \<le> 10592 * msPerDay"
      unfolding m_def using pos by (intro mult_right_mono) simp_all
    then show ?thesis
      using o(3) assms(3) by (simp add: msPerDay_def maxTime_def)
  next
    case False
    then have "DayFromYear k \<le> Day ?lt" using YearFromTime_bounds [of ?lt] by (simp add: k_def)
    then have "DayFromYear k - 1 \<le> Day ?lt - 1" by simp
    then have "m \<le> (Day ?lt - 1) * msPerDay"
      unfolding m_def using pos by (intro mult_right_mono) simp_all
    moreover have "Day ?lt * msPerDay \<le> ?lt"
    proof -
      have "?lt div msPerDay * msPerDay + ?lt mod msPerDay = ?lt" by simp
      moreover have "0 \<le> ?lt mod msPerDay" using pos by simp
      ultimately show ?thesis unfolding Day_def by linarith
    qed
    ultimately have "m \<le> ?lt - msPerDay" by (simp add: algebra_simps)
    then have "m - o2 \<le> t + o1 - o2 - msPerDay" by (simp add: LocalTime_def o1_def)
    then show ?thesis
      using o assms(1) by (simp add: msPerDay_def msPerHour_def)
  qed
  show ?thesis using lo hi eq by simp
qed

section \<open>Runs on a host with daylight saving, and further concrete histories\<close>

text \<open>
  The keys of a generated series are the UTC dates of the time values that the loop
  visits. On the New York host the loop, started at 00:00 UTC (19:00 local time of the
  day before), keeps the local time of day: across the start of daylight saving its
  UTC time moves from 00:00 to 23:00 of the day before, across its end from 00:00 to
  01:00.
\<close>

lemma generate_keys:
  assumes "generateSyntheticSalesData z s e rand = Inr rs"
  shows "map ds rs = map toISODate (dates_loop z (Date_parse s) (Date_parse e))"
proof (rule nth_equalityI)
  show "length (map ds rs) = length (map toISODate (dates_loop z (Date_parse s) (Date_parse e)))"
    using generate_result(1) [OF assms] by simp
next
  fix i assume "i < length (map ds rs)"
  then have i: "i < length rs" by simp
  then show "map ds rs ! i = map toISODate (dates_loop z (Date_parse s) (Date_parse e)) ! i"
    using generate_result(1,2) [OF assms] by simp
qed

lemma ny_step_0308: "next_day new_york_2024 (Some 1709856000000) = Some 1709942400000"
  by code_simp

lemma ny_step_0309: "next_day new_york_2024 (Some 1709942400000) = Some 1710028800000"
  by code_simp

lemma ny_step_0310: "next_day new_york_2024 (Some 1710028800000) = Some 1710111600000"
  by code_simp

lemma ny_step_0310b: "next_day new_york_2024 (Some 1710111600000) = Some 1710198000000"
  by code_simp

lemma ny_step_0311: "next_day new_york_2024 (Some 1710198000000) = Some 1710284400000"
  by code_simp

lemma ny_dates:
  "dates_loop new_york_2024 (Some 1709856000000) (Some 1710201600000)
   = [1709856000000, 1709942400000, 1710028800000, 1710111600000, 1710198000000]"
  by (simp add: dates_loop.simps [of _ "Some _" "Some _"]
      ny_step_0308 ny_step_0309 ny_step_0310 ny_step_0310b ny_step_0311)

lemma ny_keys:
  "toISODate 1709856000000 = \<lparr>yyyy = 2024, mm = 3, dd = 8\<rparr>"
  "toISODate 1709942400000 = \<lparr>yyyy = 2024, mm = 3, dd = 9\<rparr>"
  "toISODate 1710028800000 = \<lparr>yyyy = 2024, mm = 3, dd = 10\<rparr>"
  "toISODate 1710111600000 = \<lparr>yyyy = 2024, mm = 3, dd = 10\<rparr>"
  "toISODate 1710198000000 = \<lparr>yyyy = 2024, mm = 3, dd = 11\<rparr>"
  by code_simp+

lemma ny_parse:
  "Date_parse \<lparr>yyyy = 2024, mm = 3, dd = 8\<rparr> = Some 1709856000000"
  "Date_parse \<lparr>yyyy = 2024, mm = 3, dd = 10\<rparr> = Some 1710028800000"
  "Date_parse \<lparr>yyyy = 2024, mm = 3, dd = 12\<rparr> = Some 1710201600000"
  by code_simp+










lemma ny_nov_parse:
  "Date_parse \<lparr>yyyy = 2024, mm = 11, dd = 1\<rparr> = Some 1730419200000"
  "Date_parse \<lparr>yyyy = 2024, mm = 11, dd = 5\<rparr> = Some 1730764800000"
  by code_simp+

lemma ny_step_1101: "next_day new_york_2024 (Some 1730419200000) = Some 1730505600000"
  by code_simp

lemma ny_step_1102: "next_day new_york_2024 (Some 1730505600000) = Some 1730592000000"
  by code_simp

lemma ny_step_1103: "next_day new_york_2024 (Some 1730592000000) = Some 1730682000000"
  by code_simp

lemma ny_step_1104: "next_day new_york_2024 (Some 1730682000000) = Some 1730768400000"
  by code_simp

lemma ny_nov_dates:
  "dates_loop new_york_2024 (Some 1730419200000) (Some 1730764800000)
   = [1730419200000, 1730505600000, 1730592000000, 1730682000000]"
  by (simp add: dates_loop.simps [of _ "Some _" "Some _"]
      ny_step_1101 ny_step_1102 ny_step_1103 ny_step_1104)

lemma ny_nov_keys:
  "toISODate 1730419200000 = \<lparr>yyyy = 2024, mm = 11, dd = 1\<rparr>"
  "toISODate 1730505600000 = \<lparr>yyyy = 2024, mm = 11, dd = 2\<rparr>"
  "toISODate 1730592000000 = \<lparr>yyyy = 2024, mm = 11, dd = 3\<rparr>"
  "toISODate 1730682000000 = \<lparr>yyyy = 2024, mm = 11, dd = 4\<rparr>"
  by code_simp+

lemma ny_step_0101: "next_day new_york_2024 (Some 1704067200000) = Some 1704153600000"
  by code_simp

lemma ny_single_day_run:
  "simulateProphetForecast new_york_2024 [\<lparr>ds = \<lparr>yyyy = 2024, mm = 1, dd = 1\<rparr>, y = 100\<rparr>] 1
   = Inr [forecast_of new_york_2024 [\<lparr>ds = \<lparr>yyyy = 2024, mm = 1, dd = 1\<rparr>, y = 100\<rparr>]
            1704067200000 1704153600000]"
  by (simp add: simulateProphetForecast_def Date_parse_20240101 ny_step_0101)

lemma ny_january:
  "LocalTime new_york_2024 1704153600000 = LocalTime (plain_zone (- 18000000)) 1704153600000"
  "Date_ymd new_york_2024 (getFullYear new_york_2024 1704153600000) 0 0
     = Date_ymd (plain_zone (- 18000000)) (getFullYear (plain_zone (- 18000000)) 1704153600000) 0 0"
  by code_simp+

lemma ny_single_day_components:
  "yearlySeasonality new_york_2024 1704153600000
     = yearlySeasonality (plain_zone (- 18000000)) 1704153600000"
  "weeklySeasonality new_york_2024 1704153600000
     = weeklySeasonality (plain_zone (- 18000000)) 1704153600000"
  unfolding yearlySeasonality_def weeklySeasonality_def dayOfYear_def getDay_def ny_january
  by (rule refl)+

lemma ny_single_day_record:
  "forecast_of new_york_2024 h 1704067200000 1704153600000
     = forecast_of (plain_zone (- 18000000)) h 1704067200000 1704153600000"
  unfolding forecast_of_def ny_single_day_components by (rule refl)





section \<open>The claims of the specification\<close>

text \<open>
  Claim C1. The specification says that the back-test, the call
  \<^verbatim>\<open>simulateProphetForecast(historical, historical.length)\<close> of the effect, runs over the
  historical span itself: its records carry the historical date keys. The source's own
  comment says the same (\<^verbatim>\<open>// Simulate forecast for the historical period to calculate
  metrics\<close>). The code does not do it: the simulator always starts on the day after the
  last historical date. On every host without daylight saving, whatever its offset from
  UTC and whatever \<^verbatim>\<open>Math.random\<close> returns, the effect's history runs from 2022-01-01 to
  2024-12-31, the back-test has as many records, starts on 2025-01-01, and shares no date
  key with the history.
\<close>

theorem backtest_misses_history:
  "\<exists>st bt. useEffect (plain_zone off) rand = Inr st
     \<and> simulateProphetForecast (plain_zone off) (salesData st) (int (length (salesData st)))
         = Inr bt
     \<and> length bt = length (salesData st)
     \<and> ds (salesData st ! 0) = \<lparr>yyyy = 2022, mm = 1, dd = 1\<rparr>
     \<and> ds (salesData st ! 1095) = \<lparr>yyyy = 2024, mm = 12, dd = 31\<rparr>
     \<and> ds (bt ! 0) = \<lparr>yyyy = 2025, mm = 1, dd = 1\<rparr>
     \<and> map ds bt \<noteq> map ds (salesData st)
     \<and> set (map ds bt) \<inter> set (map ds (salesData st)) = {}"
proof -
  from useEffect_facts [where rand = rand and off = off]
  obtain st bt where f: "useEffect (plain_zone off) rand = Inr st"
    "length (salesData st) = 1096"
    "ds (salesData st ! 0) = START_DATE" "ds (salesData st ! 1095) = END_DATE"
    "simulateProphetForecast (plain_zone off) (salesData st) (int (length (salesData st)))
       = Inr bt"
    "length bt = 1096" "ds (bt ! 0) = \<lparr>yyyy = 2025, mm = 1, dd = 1\<rparr>"
    "\<forall>f \<in> set bt. \<exists>tf. Date_parse (ds f) = Some tf \<and> 1735603200000 < tf"
    "\<forall>a \<in> set (salesData st). \<exists>ta. Date_parse (ds a) = Some ta \<and> ta \<le> 1735603200000"
    by blast
  have disj: "set (map ds bt) \<inter> set (map ds (salesData st)) = {}"
  proof (rule ccontr)
    assume "set (map ds bt) \<inter> set (map ds (salesData st)) \<noteq> {}"
    then obtain p a where "p \<in> set bt" "a \<in> set (salesData st)" "ds p = ds a" by auto
    then show False using f(8,9) by fastforce
  qed
  have "bt \<noteq> []" using f(6) by auto
  then have ne: "set (map ds bt) \<noteq> {}" by simp
  have "map ds bt \<noteq> map ds (salesData st)"
  proof
    assume "map ds bt = map ds (salesData st)"
    then have "set (map ds bt) \<inter> set (map ds (salesData st)) = set (map ds bt)" by simp
    then show False using disj ne by simp
  qed
  then show ?thesis
    using f disj by (auto simp: START_DATE_def END_DATE_def)
qed




text \<open>
  Claim C3. The specification says that every forecast record satisfies
  \<open>yhat_lower \<le> yhat \<le> yhat_upper\<close>. The source clamps \<^verbatim>\<open>yhat\<close> and \<^verbatim>\<open>yhat_lower\<close> at 0
  with \<^verbatim>\<open>Math.max(0, ...)\<close> but not \<^verbatim>\<open>yhat_upper\<close>. For the history of 1000 sales on
  2024-01-01 and 0 on 2024-01-02 and a horizon of one day, on a host with any fixed
  offset from UTC, the raw prediction is at most -25: the record has \<open>yhat_lower = 0\<close>,
  \<open>yhat = 0\<close> and \<open>yhat_upper \<le> -20\<close>, so the upper bound is below the prediction.
\<close>

theorem interval_broken_on_falling_history:
  "\<exists>r. simulateProphetForecast (plain_zone off)
          [\<lparr>ds = \<lparr>yyyy = 2024, mm = 1, dd = 1\<rparr>, y = 1000\<rparr>,
           \<lparr>ds = \<lparr>yyyy = 2024, mm = 1, dd = 2\<rparr>, y = 0\<rparr>] 1 = Inr [r]
     \<and> ds r = \<lparr>yyyy = 2024, mm = 1, dd = 3\<rparr>
     \<and> yhat_lower r = 0 \<and> yhat r = 0 \<and> yhat_upper r \<le> - 20
     \<and> \<not> (yhat_lower r \<le> yhat r \<and> yhat r \<le> yhat_upper r)"
proof -
  define r where "r = forecast_of (plain_zone off)
       [\<lparr>ds = \<lparr>yyyy = 2024, mm = 1, dd = 1\<rparr>, y = 1000\<rparr>,
        \<lparr>ds = \<lparr>yyyy = 2024, mm = 1, dd = 2\<rparr>, y = 0\<rparr>] 1704153600000 1704240000000"
  note rec = falling_history_record [OF r_def]
  have "simulateProphetForecast (plain_zone off)
          [\<lparr>ds = \<lparr>yyyy = 2024, mm = 1, dd = 1\<rparr>, y = 1000\<rparr>,
           \<lparr>ds = \<lparr>yyyy = 2024, mm = 1, dd = 2\<rparr>, y = 0\<rparr>] 1 = Inr [r]"
    unfolding r_def by (rule falling_history_run)
  moreover have "ds r = \<lparr>yyyy = 2024, mm = 1, dd = 3\<rparr>"
    using toISODate_parse [OF Date_parse_20240103] by (simp add: r_def)
  moreover have "\<not> (yhat_lower r \<le> yhat r \<and> yhat r \<le> yhat_upper r)"
    using rec by simp
  ultimately show ?thesis using rec by blast
qed

text \<open>
  Claim C4, as amended. The specification says that a start date after the end date
  fails with InvalidRangeError. The source has no such check: the \<^verbatim>\<open>while\<close> loop never
  runs, and the generator returns the empty sequence. On every host, for every pair of
  valid dates with the start after the end, the result is \<open>Inr []\<close>.
\<close>

theorem inverted_range_returns_empty:
  assumes "Date_parse startDateStr = Some ts" "Date_parse endDateStr = Some te" "te < ts"
  shows "generateSyntheticSalesData z startDateStr endDateStr rand = Inr []"
  using assms by (rule generate_after)

text \<open>
The theorem on the New York host, at the dates 2024-12-31 and 2022-01-01.
\<close>

theorem inverted_range_returns_empty_witness:
  "Date_parse \<lparr>yyyy = 2024, mm = 12, dd = 31\<rparr> = Some 1735603200000
   \<and> Date_parse \<lparr>yyyy = 2022, mm = 1, dd = 1\<rparr> = Some 1640995200000
   \<and> (1640995200000 :: int) < 1735603200000
   \<and> generateSyntheticSalesData new_york_2024 \<lparr>yyyy = 2024, mm = 12, dd = 31\<rparr>
        \<lparr>yyyy = 2022, mm = 1, dd = 1\<rparr> mid_draws = Inr []"
proof -
  have e: "Date_parse \<lparr>yyyy = 2024, mm = 12, dd = 31\<rparr> = Some 1735603200000"
    using END_DATE_parse by (simp add: END_DATE_def)
  have s: "Date_parse \<lparr>yyyy = 2022, mm = 1, dd = 1\<rparr> = Some 1640995200000"
    using START_DATE_parse by (simp add: START_DATE_def)
  show ?thesis
    using inverted_range_returns_empty [OF e s, where rand = mid_draws and z = new_york_2024]
      e s
    by simp
qed

text \<open>
  Claim C4 as stated fails: from 2024-01-02 to 2024-01-01 the generator returns the
  empty sequence and raises nothing, here on a UTC host.
\<close>

theorem inverted_range_no_error:
  "generateSyntheticSalesData (plain_zone 0) \<lparr>yyyy = 2024, mm = 1, dd = 2\<rparr>
     \<lparr>yyyy = 2024, mm = 1, dd = 1\<rparr> mid_draws = Inr []
   \<and> generateSyntheticSalesData (plain_zone 0) \<lparr>yyyy = 2024, mm = 1, dd = 2\<rparr>
     \<lparr>yyyy = 2024, mm = 1, dd = 1\<rparr> mid_draws \<noteq> Inl InvalidRangeError"
proof -
  have "generateSyntheticSalesData (plain_zone 0) \<lparr>yyyy = 2024, mm = 1, dd = 2\<rparr>
      \<lparr>yyyy = 2024, mm = 1, dd = 1\<rparr> mid_draws = Inr []"
    by (rule generate_after [OF Date_parse_20240102 Date_parse_20240101]) simp
  then show ?thesis by simp
qed

text \<open>
  Claim C5, as amended. The specification says that an empty history with a positive
  horizon fails with EmptyHistoryError. The source has no such error: on an empty array
  \<^verbatim>\<open>historicalData[historicalData.length - 1].ds\<close> reads a property of \<^verbatim>\<open>undefined\<close>, a
  TypeError, before the horizon is looked at. On every host and for every horizon,
  positive or not, the call fails with a TypeError.
\<close>

theorem empty_history_fails:
  "simulateProphetForecast z [] horizonDays = Inl TypeError"
  by (rule simulate_empty)

text \<open>
  Claim C5 as stated fails: with a horizon of 1 the failure is a TypeError, not an
  EmptyHistoryError, here on a UTC host.
\<close>

theorem empty_history_type_error:
  "simulateProphetForecast (plain_zone 0) [] 1 = Inl TypeError
   \<and> simulateProphetForecast (plain_zone 0) [] 1 \<noteq> Inl EmptyHistoryError"
  by (simp add: simulate_empty)

text \<open>
  Claim C6, as amended. The specification says that a negative safety factor fails with
  InvalidFactorError. The source checks nothing: for every forecast sequence and every
  negative factor the planner returns one record per forecast record, with the same
  \<^verbatim>\<open>ds\<close> and \<^verbatim>\<open>yhat\<close> and with
  \<^verbatim>\<open>recommended_inventory = Math.round(yhat + yhat * safetyFactor)\<close>.
\<close>

theorem negative_factor_plan:
  assumes "safetyFactor < 0"
  shows "\<exists>rs. calculateInventoryRecommendations forecasts safetyFactor = Inr rs
    \<and> length rs = length forecasts
    \<and> (\<forall>i < length forecasts. ds (rs ! i) = ds (forecasts ! i)
          \<and> yhat (rs ! i) = yhat (forecasts ! i)
          \<and> recommended_inventory (rs ! i)
              = Math_round (yhat (forecasts ! i) + yhat (forecasts ! i) * safetyFactor))"
proof -
  obtain rs where rs: "calculateInventoryRecommendations forecasts safetyFactor = Inr rs"
    using calculate_total by blast
  then show ?thesis
    using calculate_returns [OF rs] calculate_nth [OF rs] by auto
qed

text \<open>
The theorem at one forecast of 100 and the factor -0.5.
\<close>

theorem negative_factor_plan_witness:
  "(- 1 / 2 :: real) < 0
   \<and> (\<exists>rs. calculateInventoryRecommendations
         [\<lparr>ds = \<lparr>yyyy = 2024, mm = 1, dd = 1\<rparr>, yhat = 100, yhat_lower = 95, yhat_upper = 105,
           trend = 100, yearly_seasonality = 0, weekly_seasonality = 0\<rparr>] (- 1 / 2) = Inr rs
        \<and> length rs = 1 \<and> ds (rs ! 0) = \<lparr>yyyy = 2024, mm = 1, dd = 1\<rparr>
        \<and> yhat (rs ! 0) = 100 \<and> recommended_inventory (rs ! 0) = 50)"
proof -
  have "Math_round 50 = 50" using Math_round_of_int [of 50] by simp
  then show ?thesis
    using negative_factor_plan [of "- 1 / 2"
      "[\<lparr>ds = \<lparr>yyyy = 2024, mm = 1, dd = 1\<rparr>, yhat = 100, yhat_lower = 95, yhat_upper = 105,
         trend = 100, yearly_seasonality = 0, weekly_seasonality = 0\<rparr>]"]
    by auto
qed

text \<open>
  Claim C6 as stated fails: for one forecast of 100 and the factor -0.5 the planner
  returns a recommendation of 50 and raises nothing.
\<close>

theorem negative_factor_no_error:
  "calculateInventoryRecommendations
     [\<lparr>ds = \<lparr>yyyy = 2024, mm = 1, dd = 1\<rparr>, yhat = 100, yhat_lower = 95, yhat_upper = 105,
       trend = 100, yearly_seasonality = 0, weekly_seasonality = 0\<rparr>] (- 1 / 2)
   = Inr [\<lparr>ds = \<lparr>yyyy = 2024, mm = 1, dd = 1\<rparr>, yhat = 100, recommended_inventory = 50\<rparr>]
   \<and> calculateInventoryRecommendations
     [\<lparr>ds = \<lparr>yyyy = 2024, mm = 1, dd = 1\<rparr>, yhat = 100, yhat_lower = 95, yhat_upper = 105,
       trend = 100, yearly_seasonality = 0, weekly_seasonality = 0\<rparr>] (- 1 / 2)
   \<noteq> Inl InvalidFactorError"
proof -
  have "Math_round 50 = 50" using Math_round_of_int [of 50] by simp
  then show ?thesis by (simp add: calculateInventoryRecommendations_def)
qed

text \<open>
  Claim C7. The specification says that the generator returns one record per calendar
  day from the start date to the end date: as many records as days between the two dates
  plus one, with consecutive date keys, no gaps and no duplicates. The source steps the
  date with \<^verbatim>\<open>setDate(getDate() + 1)\<close>, in the host's local time, and takes the key from
  \<^verbatim>\<open>toISOString()\<close>, in UTC; the two agree only on a host without daylight saving (lemma
  \<open>generated_series_facts\<close>: there the claim holds, for every pair of valid dates and
  every offset). On a host in New York, whatever \<^verbatim>\<open>Math.random\<close> returns: from
  2024-03-08 to 2024-03-12 the generator returns five records with the keys 2024-03-08,
  2024-03-09, 2024-03-10, 2024-03-10 and 2024-03-11, so one key comes twice and the end
  date is missing; from 2024-11-01 to 2024-11-05, dates four days apart, it returns four
  records, of 2024-11-01 to 2024-11-04, not five.
\<close>

theorem generated_keys_on_dst_host:
  "\<exists>rs qs. Date_parse \<lparr>yyyy = 2024, mm = 3, dd = 8\<rparr> = Some 1709856000000
     \<and> Date_parse \<lparr>yyyy = 2024, mm = 3, dd = 12\<rparr> = Some 1710201600000
     \<and> generateSyntheticSalesData new_york_2024 \<lparr>yyyy = 2024, mm = 3, dd = 8\<rparr>
         \<lparr>yyyy = 2024, mm = 3, dd = 12\<rparr> rand = Inr rs
     \<and> map ds rs = [\<lparr>yyyy = 2024, mm = 3, dd = 8\<rparr>, \<lparr>yyyy = 2024, mm = 3, dd = 9\<rparr>,
          \<lparr>yyyy = 2024, mm = 3, dd = 10\<rparr>, \<lparr>yyyy = 2024, mm = 3, dd = 10\<rparr>,
          \<lparr>yyyy = 2024, mm = 3, dd = 11\<rparr>]
     \<and> ds (rs ! 3) = ds (rs ! 2)
     \<and> ds (rs ! (length rs - 1)) \<noteq> \<lparr>yyyy = 2024, mm = 3, dd = 12\<rparr>
     \<and> Date_parse \<lparr>yyyy = 2024, mm = 11, dd = 1\<rparr> = Some 1730419200000
     \<and> Date_parse \<lparr>yyyy = 2024, mm = 11, dd = 5\<rparr> = Some 1730764800000
     \<and> generateSyntheticSalesData new_york_2024 \<lparr>yyyy = 2024, mm = 11, dd = 1\<rparr>
         \<lparr>yyyy = 2024, mm = 11, dd = 5\<rparr> rand = Inr qs
     \<and> map ds qs = [\<lparr>yyyy = 2024, mm = 11, dd = 1\<rparr>, \<lparr>yyyy = 2024, mm = 11, dd = 2\<rparr>,
          \<lparr>yyyy = 2024, mm = 11, dd = 3\<rparr>, \<lparr>yyyy = 2024, mm = 11, dd = 4\<rparr>]
     \<and> length qs = 4
     \<and> nat ((1730764800000 - 1730419200000) div msPerDay) + 1 = 5"
proof -
  obtain rs where rs: "generateSyntheticSalesData new_york_2024 \<lparr>yyyy = 2024, mm = 3, dd = 8\<rparr>
         \<lparr>yyyy = 2024, mm = 3, dd = 12\<rparr> rand = Inr rs"
    using generate_returns by blast
  obtain qs where qs: "generateSyntheticSalesData new_york_2024 \<lparr>yyyy = 2024, mm = 11, dd = 1\<rparr>
         \<lparr>yyyy = 2024, mm = 11, dd = 5\<rparr> rand = Inr qs"
    using generate_returns by blast
  have krs: "map ds rs = [\<lparr>yyyy = 2024, mm = 3, dd = 8\<rparr>, \<lparr>yyyy = 2024, mm = 3, dd = 9\<rparr>,
          \<lparr>yyyy = 2024, mm = 3, dd = 10\<rparr>, \<lparr>yyyy = 2024, mm = 3, dd = 10\<rparr>,
          \<lparr>yyyy = 2024, mm = 3, dd = 11\<rparr>]"
    using generate_keys [OF rs] by (simp add: ny_parse ny_dates ny_keys)
  have kqs: "map ds qs = [\<lparr>yyyy = 2024, mm = 11, dd = 1\<rparr>, \<lparr>yyyy = 2024, mm = 11, dd = 2\<rparr>,
          \<lparr>yyyy = 2024, mm = 11, dd = 3\<rparr>, \<lparr>yyyy = 2024, mm = 11, dd = 4\<rparr>]"
    using generate_keys [OF qs] by (simp add: ny_nov_parse ny_nov_dates ny_nov_keys)
  from krs have lrs: "length rs = 5" using length_map [of ds rs] by simp
  from kqs have lqs: "length qs = 4" using length_map [of ds qs] by simp
  have n: "ds (rs ! 2) = map ds rs ! 2" "ds (rs ! 3) = map ds rs ! 3"
    "ds (rs ! 4) = map ds rs ! 4"
    using lrs by simp_all
  have "ds (rs ! 3) = ds (rs ! 2)" unfolding n krs by simp
  moreover have "ds (rs ! (length rs - 1)) \<noteq> \<lparr>yyyy = 2024, mm = 3, dd = 12\<rparr>"
    unfolding lrs using n(3) krs by simp
  moreover have "nat ((1730764800000 - 1730419200000) div msPerDay) + 1 = 5"
    by (simp add: msPerDay_def)
  ultimately show ?thesis
    using rs qs krs kqs lqs ny_parse(1,3) ny_nov_parse
    by - (rule exI [of _ rs], rule exI [of _ qs], simp)
qed

text \<open>
  Claim C8. For forecasts whose \<^verbatim>\<open>yhat\<close> are all non-negative and factors
  \<open>0 \<le> f1 \<le> f2\<close>, the planner returns for both factors, and every
  \<^verbatim>\<open>recommended_inventory\<close> with \<open>f2\<close> is at least the one with \<open>f1\<close> at the same position.
\<close>

theorem plan_monotone:
  assumes "\<forall>f \<in> set forecasts. 0 \<le> yhat f" "0 \<le> f1" "f1 \<le> f2"
  shows "\<exists>r1 r2. calculateInventoryRecommendations forecasts f1 = Inr r1
    \<and> calculateInventoryRecommendations forecasts f2 = Inr r2
    \<and> length r1 = length forecasts \<and> length r2 = length forecasts
    \<and> (\<forall>i < length forecasts.
          recommended_inventory (r1 ! i) \<le> recommended_inventory (r2 ! i))"
proof -
  obtain r1 r2 where r: "calculateInventoryRecommendations forecasts f1 = Inr r1"
    "calculateInventoryRecommendations forecasts f2 = Inr r2"
    using calculate_total by blast
  have "recommended_inventory (r1 ! i) \<le> recommended_inventory (r2 ! i)"
    if "i < length forecasts" for i
  proof -
    have "0 \<le> yhat (forecasts ! i)" using assms(1) that by simp
    then show ?thesis
      using calculate_nth(3) [OF r(1) that] calculate_nth(3) [OF r(2) that] assms(3)
      by (simp add: recommended_mono)
  qed
  then show ?thesis
    using r calculate_returns [OF r(1)] calculate_returns [OF r(2)] by blast
qed

text \<open>
The theorem at one forecast of 100 and the factors 0.2 and 0.5.
\<close>

theorem plan_monotone_witness:
  "(0 :: real) \<le> 100 \<and> (0 :: real) \<le> 1 / 5 \<and> (1 / 5 :: real) \<le> 1 / 2
   \<and> (\<exists>r1 r2. calculateInventoryRecommendations
         [\<lparr>ds = \<lparr>yyyy = 2024, mm = 1, dd = 1\<rparr>, yhat = 100, yhat_lower = 95, yhat_upper = 105,
           trend = 100, yearly_seasonality = 0, weekly_seasonality = 0\<rparr>] (1 / 5) = Inr r1
       \<and> calculateInventoryRecommendations
         [\<lparr>ds = \<lparr>yyyy = 2024, mm = 1, dd = 1\<rparr>, yhat = 100, yhat_lower = 95, yhat_upper = 105,
           trend = 100, yearly_seasonality = 0, weekly_seasonality = 0\<rparr>] (1 / 2) = Inr r2
       \<and> recommended_inventory (r1 ! 0) = 120 \<and> recommended_inventory (r2 ! 0) = 150
       \<and> recommended_inventory (r1 ! 0) \<le> recommended_inventory (r2 ! 0))"
proof -
  let ?fs = "[\<lparr>ds = \<lparr>yyyy = 2024, mm = 1, dd = 1\<rparr>, yhat = 100, yhat_lower = 95,
      yhat_upper = 105, trend = 100, yearly_seasonality = 0, weekly_seasonality = 0\<rparr>]"
  have m: "Math_round 120 = 120" "Math_round 150 = 150"
    using Math_round_of_int [of 120] Math_round_of_int [of 150] by simp_all
  from plan_monotone [of ?fs "1 / 5" "1 / 2"]
  obtain r1 r2 where r: "calculateInventoryRecommendations ?fs (1 / 5) = Inr r1"
    "calculateInventoryRecommendations ?fs (1 / 2) = Inr r2"
    "recommended_inventory (r1 ! 0) \<le> recommended_inventory (r2 ! 0)"
    by auto
  have "recommended_inventory (r1 ! 0) = 120" "recommended_inventory (r2 ! 0) = 150"
    using calculate_nth(3) [OF r(1), of 0] calculate_nth(3) [OF r(2), of 0] m by simp_all
  then show ?thesis using r by auto
qed

text \<open>
  Claim C9. When no actual record and no predicted record share a date key, the
  evaluator returns \<^verbatim>\<open>{mae: 0, rmse: 0}\<close> and does not fail.
\<close>

theorem evaluate_empty_join:
  assumes "\<forall>a \<in> set actuals. \<forall>p \<in> set predictions. ds p \<noteq> ds a"
  shows "evaluateModel actuals predictions = Inr \<lparr>mae = 0, rmse = 0\<rparr>"
  using assms by (rule evaluate_no_overlap)

text \<open>
The theorem at one actual record of 2024-01-01 and one prediction of 2024-01-02.
\<close>

theorem evaluate_empty_join_witness:
  "\<lparr>yyyy = 2024, mm = 1, dd = 2\<rparr> \<noteq> \<lparr>yyyy = 2024, mm = 1, dd = 1\<rparr>
   \<and> evaluateModel [\<lparr>ds = \<lparr>yyyy = 2024, mm = 1, dd = 1\<rparr>, y = 100\<rparr>]
       [\<lparr>ds = \<lparr>yyyy = 2024, mm = 1, dd = 2\<rparr>, yhat = 90, yhat_lower = 85, yhat_upper = 95,
         trend = 90, yearly_seasonality = 0, weekly_seasonality = 0\<rparr>]
     = Inr \<lparr>mae = 0, rmse = 0\<rparr>"
  using evaluate_empty_join [of "[\<lparr>ds = \<lparr>yyyy = 2024, mm = 1, dd = 1\<rparr>, y = 100\<rparr>]"
      "[\<lparr>ds = \<lparr>yyyy = 2024, mm = 1, dd = 2\<rparr>, yhat = 90, yhat_lower = 85, yhat_upper = 95,
         trend = 90, yearly_seasonality = 0, weekly_seasonality = 0\<rparr>]"]
  by simp

text \<open>
  Claim C10. For the history of the single record \<^verbatim>\<open>{ds: '2024-01-01', y: 100}\<close> and a
  horizon of 1, the simulator returns one record, of 2024-01-02; the slope
  \<open>historicalTrendEnd\<close> is 0, the simulated trend is 100, and \<^verbatim>\<open>yhat\<close> is
  \<open>Math_round (max 0 (100 + yearly + weekly))\<close> with the two seasonal components taken at
  2024-01-02. This holds on every host without daylight saving, and on the New York
  host. On a host less than a day from UTC, and in New York, the local date of the
  record is a Monday or a Tuesday, the first or second day of its year, and the value is
  100.
\<close>

theorem single_day_scenario:
  "(\<exists>r. simulateProphetForecast (plain_zone off)
          [\<lparr>ds = \<lparr>yyyy = 2024, mm = 1, dd = 1\<rparr>, y = 100\<rparr>] 1 = Inr [r]
     \<and> ds r = \<lparr>yyyy = 2024, mm = 1, dd = 2\<rparr>
     \<and> Date_parse \<lparr>yyyy = 2024, mm = 1, dd = 1\<rparr> = Some 1704067200000
     \<and> Date_parse \<lparr>yyyy = 2024, mm = 1, dd = 2\<rparr> = Some 1704153600000
     \<and> historicalTrendEnd [\<lparr>ds = \<lparr>yyyy = 2024, mm = 1, dd = 1\<rparr>, y = 100\<rparr>] = 0
     \<and> simulatedTrend [\<lparr>ds = \<lparr>yyyy = 2024, mm = 1, dd = 1\<rparr>, y = 100\<rparr>]
           1704067200000 1704153600000 = 100
     \<and> trend r = 100
     \<and> yhat r = Math_round (max 0 (100 + yearlySeasonality (plain_zone off) 1704153600000
                                        + weeklySeasonality (plain_zone off) 1704153600000))
     \<and> (- msPerDay < off \<and> off < msPerDay \<longrightarrow> yhat r = 100))
   \<and> (\<exists>r. simulateProphetForecast new_york_2024
          [\<lparr>ds = \<lparr>yyyy = 2024, mm = 1, dd = 1\<rparr>, y = 100\<rparr>] 1 = Inr [r]
     \<and> ds r = \<lparr>yyyy = 2024, mm = 1, dd = 2\<rparr>
     \<and> trend r = 100
     \<and> yhat r = Math_round (max 0 (100 + yearlySeasonality new_york_2024 1704153600000
                                        + weeklySeasonality new_york_2024 1704153600000))
     \<and> yhat r = 100)"
proof (rule conjI)
  define r where "r = forecast_of (plain_zone off)
     [\<lparr>ds = \<lparr>yyyy = 2024, mm = 1, dd = 1\<rparr>, y = 100\<rparr>] 1704067200000 1704153600000"
  note rec = single_day_record [OF r_def]
  have "simulateProphetForecast (plain_zone off)
      [\<lparr>ds = \<lparr>yyyy = 2024, mm = 1, dd = 1\<rparr>, y = 100\<rparr>] 1 = Inr [r]"
    unfolding r_def by (rule single_day_run)
  then show "\<exists>r. simulateProphetForecast (plain_zone off)
          [\<lparr>ds = \<lparr>yyyy = 2024, mm = 1, dd = 1\<rparr>, y = 100\<rparr>] 1 = Inr [r]
     \<and> ds r = \<lparr>yyyy = 2024, mm = 1, dd = 2\<rparr>
     \<and> Date_parse \<lparr>yyyy = 2024, mm = 1, dd = 1\<rparr> = Some 1704067200000
     \<and> Date_parse \<lparr>yyyy = 2024, mm = 1, dd = 2\<rparr> = Some 1704153600000
     \<and> historicalTrendEnd [\<lparr>ds = \<lparr>yyyy = 2024, mm = 1, dd = 1\<rparr>, y = 100\<rparr>] = 0
     \<and> simulatedTrend [\<lparr>ds = \<lparr>yyyy = 2024, mm = 1, dd = 1\<rparr>, y = 100\<rparr>]
           1704067200000 1704153600000 = 100
     \<and> trend r = 100
     \<and> yhat r = Math_round (max 0 (100 + yearlySeasonality (plain_zone off) 1704153600000
                                        + weeklySeasonality (plain_zone off) 1704153600000))
     \<and> (- msPerDay < off \<and> off < msPerDay \<longrightarrow> yhat r = 100)"
    using rec Date_parse_20240101 Date_parse_20240102 single_day_slope single_day_trend
    by blast
next
  define r where "r = forecast_of new_york_2024
     [\<lparr>ds = \<lparr>yyyy = 2024, mm = 1, dd = 1\<rparr>, y = 100\<rparr>] 1704067200000 1704153600000"
  then have r: "r = forecast_of (plain_zone (- 18000000))
     [\<lparr>ds = \<lparr>yyyy = 2024, mm = 1, dd = 1\<rparr>, y = 100\<rparr>] 1704067200000 1704153600000"
    by (simp add: ny_single_day_record)
  note rec = single_day_record [OF r]
  have "yhat r = 100" by (rule rec(4)) (simp_all add: msPerDay_def)
  moreover have "simulateProphetForecast new_york_2024
      [\<lparr>ds = \<lparr>yyyy = 2024, mm = 1, dd = 1\<rparr>, y = 100\<rparr>] 1 = Inr [r]"
    unfolding r_def by (rule ny_single_day_run)
  ultimately show "\<exists>r. simulateProphetForecast new_york_2024
          [\<lparr>ds = \<lparr>yyyy = 2024, mm = 1, dd = 1\<rparr>, y = 100\<rparr>] 1 = Inr [r]
     \<and> ds r = \<lparr>yyyy = 2024, mm = 1, dd = 2\<rparr>
     \<and> trend r = 100
     \<and> yhat r = Math_round (max 0 (100 + yearlySeasonality new_york_2024 1704153600000
                                        + weeklySeasonality new_york_2024 1704153600000))
     \<and> yhat r = 100"
    using rec(1,2,3) unfolding ny_single_day_components by blast
qed

text \<open>
  The theorem on a UTC host: there 2024-01-02 is a Tuesday, the second day of its year.
\<close>

theorem single_day_scenario_witness:
  "- msPerDay < 0 \<and> 0 < msPerDay
   \<and> (\<exists>r. simulateProphetForecast (plain_zone 0)
          [\<lparr>ds = \<lparr>yyyy = 2024, mm = 1, dd = 1\<rparr>, y = 100\<rparr>] 1 = Inr [r]
     \<and> ds r = \<lparr>yyyy = 2024, mm = 1, dd = 2\<rparr>
     \<and> Date_parse \<lparr>yyyy = 2024, mm = 1, dd = 1\<rparr> = Some 1704067200000
     \<and> Date_parse \<lparr>yyyy = 2024, mm = 1, dd = 2\<rparr> = Some 1704153600000
     \<and> historicalTrendEnd [\<lparr>ds = \<lparr>yyyy = 2024, mm = 1, dd = 1\<rparr>, y = 100\<rparr>] = 0
     \<and> simulatedTrend [\<lparr>ds = \<lparr>yyyy = 2024, mm = 1, dd = 1\<rparr>, y = 100\<rparr>]
           1704067200000 1704153600000 = 100
     \<and> trend r = 100
     \<and> yhat r = Math_round (max 0 (100 + yearlySeasonality (plain_zone 0) 1704153600000
                                        + weeklySeasonality (plain_zone 0) 1704153600000))
     \<and> yhat r = 100)"
proof -
  have b: "- msPerDay < 0" "0 < msPerDay" by (simp_all add: msPerDay_def)
  from single_day_scenario [where off = 0] b show ?thesis by simp
qed

end
